theory Spec2Isabelle
  imports Complex_Main "HOL-Library.Word"
begin

section \<open>Text primitives\<close>

text \<open>
  Python text is a sequence of code points. It is modelled as \<^typ>\<open>string\<close>, whose
  characters range over the code points 0 to 255; the whitespace class (shared by
  \<^verbatim>\<open>str.strip\<close> and the regular expression class \<^verbatim>\<open>\s\<close> on text patterns) and
  \<^verbatim>\<open>str.lower\<close> are the restrictions of Python's to that range.
\<close>

definition is_space :: "char \<Rightarrow> bool" where
  "is_space c =
     (let n = (of_char c :: nat)
      in (9 \<le> n \<and> n \<le> 13) \<or> (28 \<le> n \<and> n \<le> 32) \<or> n = 133 \<or> n = 160)"

definition lower_char :: "char \<Rightarrow> char" where
  "lower_char c =
     (let n = (of_char c :: nat)
      in if (65 \<le> n \<and> n \<le> 90) \<or> (192 \<le> n \<and> n \<le> 222 \<and> n \<noteq> 215)
         then char_of (n + 32) else c)"

definition lower :: "string \<Rightarrow> string" where
  "lower s = map lower_char s"

definition strip :: "string \<Rightarrow> string" where
  "strip s = rev (dropWhile is_space (rev (dropWhile is_space s)))"

fun starts_with :: "string \<Rightarrow> string \<Rightarrow> bool" where
  "starts_with [] ys = True"
| "starts_with (x # xs) [] = False"
| "starts_with (x # xs) (y # ys) = (x = y \<and> starts_with xs ys)"

text \<open>\<^verbatim>\<open>sub in s\<close> on text: \<open>sub\<close> occurs in \<open>s\<close> as a contiguous run.\<close>

fun contains :: "string \<Rightarrow> string \<Rightarrow> bool" where
  "contains sub [] = (sub = [])"
| "contains sub (y # ys) = (starts_with sub (y # ys) \<or> contains sub ys)"

definition newline :: char where
  "newline = char_of (10 :: nat)"

definition fence :: string where
  "fence = ''```''"

definition carriage_return :: char where
  "carriage_return = char_of (13 :: nat)"

text \<open>
  What \<^verbatim>\<open>subprocess\<close> does to decoded text in text mode:
  \<^verbatim>\<open>data.replace("\r\n", "\n").replace("\r", "\n")\<close>.
\<close>

fun replace_crlf :: "string \<Rightarrow> string" where
  "replace_crlf (c # d # cs) =
     (if c = carriage_return \<and> d = newline then newline # replace_crlf cs
      else c # replace_crlf (d # cs))"
| "replace_crlf cs = cs"

definition replace_cr :: "string \<Rightarrow> string" where
  "replace_cr s = map (\<lambda>c. if c = carriage_return then newline else c) s"

definition translate_newlines :: "string \<Rightarrow> string" where
  "translate_newlines s = replace_cr (replace_crlf s)"

section \<open>ChatHandler: detection of run requests and of embedded code\<close>

definition run_commands :: "string list" where
  "run_commands =
     [''run it'', ''execute it'', ''run this'', ''execute this'',
      ''run the code'', ''execute the code'', ''run that code'',
      ''run the program'', ''execute the program'']"

text \<open>
  \<^verbatim>\<open>_is_run_previous_code_request\<close>: the loop over \<open>run_commands\<close> returns at the first
  phrase found in the lower-cased message.
\<close>

fun any_command_in :: "string list \<Rightarrow> string \<Rightarrow> bool" where
  "any_command_in [] message_lower = False"
| "any_command_in (cmd # cmds) message_lower =
     (if contains cmd message_lower then True else any_command_in cmds message_lower)"

definition is_run_previous_code_request :: "string \<Rightarrow> bool" where
  "is_run_previous_code_request message = any_command_in run_commands (lower message)"

text \<open>
  The pattern of \<^verbatim>\<open>_extract_code\<close> is
  \<^verbatim>\<open>```(?:c|C)\s*\n([\s\S]+?)\n```\<close>, matched by a backtracking matcher.
  \<open>lazy_group\<close> is the group \<^verbatim>\<open>([\s\S]+?)\<close> followed by the closing
  \<^verbatim>\<open>\n```\<close>: the group already holds \<open>acc\<close> (at least one character when called),
  and is extended one character at a time until the closing fence follows. It returns
  the group and the text after the match.
\<close>

fun lazy_group :: "string \<Rightarrow> string \<Rightarrow> (string \<times> string) option" where
  "lazy_group acc [] = None"
| "lazy_group acc (y # ys) =
     (if starts_with (newline # fence) (y # ys) then Some (acc, drop 4 (y # ys))
      else lazy_group (acc @ [y]) ys)"

text \<open>
  \<^verbatim>\<open>\s*\n\<close> followed by the rest of the pattern: the star is greedy, so a whitespace
  character is first given to the star and only on failure of all that follows taken
  as the \<^verbatim>\<open>\n\<close> of the pattern.
\<close>

fun spaces_newline :: "string \<Rightarrow> (string \<times> string) option" where
  "spaces_newline [] = None"
| "spaces_newline (y # ys) =
     (if is_space y then
        (case spaces_newline ys of
           Some r \<Rightarrow> Some r
         | None \<Rightarrow>
            (if y = newline then
               (case ys of [] \<Rightarrow> None | z # zs \<Rightarrow> lazy_group [z] zs)
             else None))
      else None)"

text \<open>A match of the whole pattern at the start of the text.\<close>

fun match_here :: "string \<Rightarrow> (string \<times> string) option" where
  "match_here (a # b # c # t # rest) =
     (if [a, b, c] = fence \<and> lower_char t = CHR ''c'' then spaces_newline rest else None)"
| "match_here _ = None"

lemma lazy_group_shorter:
  "lazy_group acc ys = Some (g, r) \<Longrightarrow> length r < length ys"
  by (induction acc ys rule: lazy_group.induct) (auto split: if_splits)

lemma spaces_newline_shorter:
  "spaces_newline ys = Some (g, r) \<Longrightarrow> length r < length ys"
proof (induction ys)
  case Nil
  then show ?case by simp
next
  case (Cons y ys)
  show ?case
  proof (cases "spaces_newline ys")
    case (Some p)
    with Cons show ?thesis by (auto split: if_splits)
  next
    case None
    with Cons.prems obtain z zs where "ys = z # zs" "lazy_group [z] zs = Some (g, r)"
      by (auto split: if_splits list.splits)
    then show ?thesis using lazy_group_shorter [of "[z]" zs g r] by simp
  qed
qed

lemma match_here_shorter:
  "match_here xs = Some (g, r) \<Longrightarrow> length r < length xs"
proof (induction xs rule: match_here.induct)
  case (1 a b c t rest)
  then have "spaces_newline rest = Some (g, r)" by (simp split: if_splits)
  then show ?case using spaces_newline_shorter [of rest g r] by simp
qed simp_all

text \<open>
  \<^verbatim>\<open>re.findall\<close>: the groups of the successive non-overlapping matches, scanning from
  the left and resuming after each match.
\<close>

function findall :: "string \<Rightarrow> string list" where
  "findall xs =
     (case match_here xs of
        Some (g, r) \<Rightarrow> g # findall r
      | None \<Rightarrow> (case xs of [] \<Rightarrow> [] | _ # ys \<Rightarrow> findall ys))"
  by pat_completeness auto
termination
  by (relation "measure length") (auto dest: match_here_shorter)

text \<open>\<^verbatim>\<open>_extract_code\<close>: the first block, stripped, tagged with the language c.\<close>

definition extract_code :: "string \<Rightarrow> (string \<times> string) option" where
  "extract_code message =
     (case findall message of
        [] \<Rightarrow> None
      | m # _ \<Rightarrow> Some (''c'', strip m))"

section \<open>The environment of one call\<close>

text \<open>
  What the operating system, the compiler, the compiled program and the generation
  service answer during one call is a parameter. A call that raises is \<open>Inl\<close> of the
  exception's text (\<open>Some\<close> of it for a file write, which returns nothing);
  the compiled program, once started, either ends within the cap, having written the
  bytes of its standard output and standard error and with its exit code, or is ended
  at the cap (\<^verbatim>\<open>TimeoutExpired\<close>), or starting it raises. The program is run in
  text mode, so what it wrote is decoded with the encoding of the locale, \<open>decode\<close>,
  which raises on bytes that are no text in that encoding. For the compiler the
  environment gives the exit code and the decoded standard error, a failure to decode
  being one of the ways its call raises. Library calls that the source leaves outside
  every handler (\<^verbatim>\<open>uuid.uuid4\<close>, \<^verbatim>\<open>time.time\<close>, \<^verbatim>\<open>tempfile.mkdtemp\<close>,
  \<^verbatim>\<open>json.dumps\<close>) are taken to return.
\<close>

type_synonym byte = "8 word"

datatype run_outcome =
    Exited "byte list" "byte list" int
  | TimeoutExpired
  | Raised string

record environment =
  uuid4 :: string
  time_entry :: real
  time_final :: real
  write_file :: "string \<Rightarrow> string \<Rightarrow> string option"
  gcc :: "string \<Rightarrow> string + (int \<times> string)"
  run_program :: "string \<Rightarrow> string \<Rightarrow> run_outcome"
  decode :: "byte list \<Rightarrow> string + string"
  classify_request :: "string \<Rightarrow> string + bool"
  generate_code :: "string \<Rightarrow> string + string"
  generate_chat_response :: "(string \<times> string) list \<Rightarrow> string + string"

section \<open>CodeExecutor\<close>

text \<open>The result dictionary; \<open>output_text\<close> is its key \<^verbatim>\<open>output\<close>.\<close>

record result =
  output_text :: string
  error :: string
  status_code :: int
  execution_time :: real

text \<open>
  The messages handed to the broadcaster, before \<^verbatim>\<open>json.dumps\<close>: a status alone, a
  status with an error text, or a status with a result.
\<close>

datatype event =
    Status string
  | StatusError string string
  | StatusResult string result

text \<open>
  What a call does to the outside, in order: the workspace directory made and removed,
  the files written (name inside the workspace, content), the processes run (arguments,
  timeout in seconds if one is given) and the broadcasts (message, execution id).
\<close>

datatype effect =
    Mkdtemp
  | WriteFile string string
  | Subprocess "string list" "nat option"
  | Rmtree
  | Broadcast event string

record executor =
  gcc_available :: bool
  execution_results :: "string \<rightharpoonup> result"

text \<open>
  \<^verbatim>\<open>CodeExecutor.__init__\<close>: the probe \<^verbatim>\<open>gcc --version\<close> ran, or raised one of the two
  exceptions the constructor handles, or raised another one, which leaves the
  constructor.
\<close>

datatype probe = GccRan | GccFailed | ProbeRaised

fun CodeExecutor_init :: "probe \<Rightarrow> executor option" where
  "CodeExecutor_init GccRan = Some \<lparr>gcc_available = True, execution_results = Map.empty\<rparr>"
| "CodeExecutor_init GccFailed = Some \<lparr>gcc_available = False, execution_results = Map.empty\<rparr>"
| "CodeExecutor_init ProbeRaised = None"

text \<open>\<^verbatim>\<open>if websocket_manager: await websocket_manager.broadcast(...)\<close>\<close>

definition send_status :: "bool \<Rightarrow> event \<Rightarrow> string \<Rightarrow> effect list" where
  "send_status websocket_manager ev execution_id =
     (if websocket_manager then [Broadcast ev execution_id] else [])"

definition unavailable_message :: string where
  "unavailable_message = ''GCC compiler is not available. Please install GCC.''"

definition timeout_message :: string where
  "timeout_message = ''Execution timed out after 10 seconds''"

text \<open>
  \<^verbatim>\<open>subprocess.run(..., capture_output=True, text=True)\<close> on a program that has
  ended: standard output is decoded and its line ends translated, then standard error;
  a failure to decode leaves the call as an exception.
\<close>

definition captured_text :: "environment \<Rightarrow> byte list \<Rightarrow> byte list \<Rightarrow> string + (string \<times> string)"
  where
  "captured_text env out_bytes err_bytes =
     (case decode env out_bytes of
        Inl e \<Rightarrow> Inl e
      | Inr out \<Rightarrow>
         (case decode env err_bytes of
            Inl e \<Rightarrow> Inl e
          | Inr err \<Rightarrow> Inr (translate_newlines out, translate_newlines err)))"

text \<open>
  The inner \<^verbatim>\<open>try\<close>: the input file, if there is input, and the run under its cap.
  \<open>write_file\<close> on \<open>input.txt\<close> stands for writing that file and opening it again
  for the program to read.
\<close>

definition run_step ::
  "environment \<Rightarrow> string \<Rightarrow> string \<Rightarrow> result \<Rightarrow> result \<times> effect list" where
  "run_step env code input_data res =
     (let run = (\<lambda>effs.
            (case run_program env code input_data of
               Exited out_bytes err_bytes rc \<Rightarrow>
                 (case captured_text env out_bytes err_bytes of
                    Inl e \<Rightarrow>
                      (res\<lparr>error := ''Execution error: '' @ e, status_code := 1\<rparr>,
                       effs @ [Subprocess [''program''] (Some 10)])
                  | Inr (out, err) \<Rightarrow>
                      (res\<lparr>output_text := out,
                           error := (if err \<noteq> [] then err else error res),
                           status_code := rc\<rparr>,
                       effs @ [Subprocess [''program''] (Some 10)]))
             | TimeoutExpired \<Rightarrow>
                 (res\<lparr>error := timeout_message, status_code := 1\<rparr>,
                  effs @ [Subprocess [''program''] (Some 10)])
             | Raised e \<Rightarrow>
                 (res\<lparr>error := ''Execution error: '' @ e, status_code := 1\<rparr>,
                  effs @ [Subprocess [''program''] (Some 10)])))
      in if input_data \<noteq> [] then
           (case write_file env ''input.txt'' input_data of
              Some e \<Rightarrow>
                (res\<lparr>error := ''Execution error: '' @ e, status_code := 1\<rparr>,
                 [WriteFile ''input.txt'' input_data])
            | None \<Rightarrow> run [WriteFile ''input.txt'' input_data])
         else run [])"

text \<open>The handler of the outer \<^verbatim>\<open>try\<close>.\<close>

definition unexpected ::
  "bool \<Rightarrow> string \<Rightarrow> string \<Rightarrow> result \<Rightarrow> effect list \<Rightarrow> result \<times> effect list" where
  "unexpected websocket_manager execution_id e res effs =
     (res\<lparr>error := ''Unexpected error: '' @ e, status_code := 1\<rparr>,
      effs @ send_status websocket_manager (StatusError ''error'' e) execution_id)"

text \<open>The body of the outer \<^verbatim>\<open>try\<close> with its handler.\<close>

definition compile_and_run ::
  "environment \<Rightarrow> bool \<Rightarrow> string \<Rightarrow> string \<Rightarrow> string \<Rightarrow> result \<Rightarrow> result \<times> effect list"
  where
  "compile_and_run env websocket_manager execution_id code input_data res =
     (let effs1 = send_status websocket_manager (Status ''starting'') execution_id
                  @ [WriteFile ''program.c'' code]
      in case write_file env ''program.c'' code of
           Some e \<Rightarrow> unexpected websocket_manager execution_id e res effs1
         | None \<Rightarrow>
            (let effs2 = effs1 @ send_status websocket_manager (Status ''compiling'') execution_id
                         @ [Subprocess [''gcc'', ''-o'', ''program'', ''program.c''] None]
             in case gcc env code of
                  Inl e \<Rightarrow> unexpected websocket_manager execution_id e res effs2
                | Inr (returncode, stderr) \<Rightarrow>
                   (if returncode \<noteq> 0 then
                      (res\<lparr>error := stderr, status_code := returncode\<rparr>,
                       effs2 @ send_status websocket_manager
                                 (StatusError ''compile_error'' stderr) execution_id)
                    else
                      (let (res', effs3) = run_step env code input_data res
                       in (res',
                           effs2 @ send_status websocket_manager (Status ''running'') execution_id
                           @ effs3)))))"

text \<open>
  \<^verbatim>\<open>execute_c_code\<close>: the returned pair of id and result, the executor afterwards and
  the effects. \<open>websocket_manager\<close> tells whether the argument of that name was given;
  the source only tests it and calls its \<^verbatim>\<open>broadcast\<close>.
\<close>

definition execute_c_code ::
  "environment \<Rightarrow> executor \<Rightarrow> string \<Rightarrow> string \<Rightarrow> string option \<Rightarrow> bool
     \<Rightarrow> (string \<times> result) \<times> executor \<times> effect list" where
  "execute_c_code env self code input_data execution_id_arg websocket_manager =
     (let execution_id = (case execution_id_arg of None \<Rightarrow> uuid4 env | Some i \<Rightarrow> i);
          start_time = time_entry env;
          res = \<lparr>output_text = [], error = [], status_code = 0, execution_time = 0\<rparr>
      in if \<not> gcc_available self then
           (let res1 = res\<lparr>error := unavailable_message, status_code := 1\<rparr>
            in ((execution_id, res1),
                self\<lparr>execution_results := (execution_results self)(execution_id \<mapsto> res1)\<rparr>,
                send_status websocket_manager (StatusError ''error'' unavailable_message)
                  execution_id))
         else
           (let (res1, effs) = compile_and_run env websocket_manager execution_id code input_data res;
                res2 = res1\<lparr>execution_time := time_final env - start_time\<rparr>
            in ((execution_id, res2),
                self\<lparr>execution_results := (execution_results self)(execution_id \<mapsto> res2)\<rparr>,
                [Mkdtemp] @ effs @ [Rmtree]
                @ send_status websocket_manager (StatusResult ''completed'' res2) execution_id)))"

text \<open>\<^verbatim>\<open>get_execution_results\<close>: the lookup by id, 404 when the id is unknown.\<close>

definition get_execution_results :: "executor \<Rightarrow> string \<Rightarrow> nat + result" where
  "get_execution_results code_executor execution_id =
     (case execution_results code_executor execution_id of
        None \<Rightarrow> Inl 404
      | Some r \<Rightarrow> Inr r)"

definition broadcasts :: "effect list \<Rightarrow> (event \<times> string) list" where
  "broadcasts effs =
     concat (map (\<lambda>e. case e of Broadcast ev i \<Rightarrow> [(ev, i)] | _ \<Rightarrow> []) effs)"

section \<open>ConnectionManager and the websocket endpoint\<close>

text \<open>
  A websocket is known by its identity, a number. Whether \<^verbatim>\<open>send_text\<close> on a
  websocket raises is a parameter \<open>send_ok\<close>. Each call of \<^verbatim>\<open>send_text\<close> is recorded
  with the websocket, the message and whether it went through.
\<close>

type_synonym websocket = nat

type_synonym send = "websocket \<times> event \<times> bool"

record connection_manager =
  active_connections :: "string \<rightharpoonup> websocket list"

definition ConnectionManager_init :: connection_manager where
  "ConnectionManager_init = \<lparr>active_connections = Map.empty\<rparr>"

definition connect :: "connection_manager \<Rightarrow> websocket \<Rightarrow> string \<Rightarrow> connection_manager" where
  "connect self ws execution_id =
     (let conns = (case active_connections self execution_id of None \<Rightarrow> [] | Some cs \<Rightarrow> cs)
      in self\<lparr>active_connections := (active_connections self)(execution_id \<mapsto> conns @ [ws])\<rparr>)"

definition disconnect :: "connection_manager \<Rightarrow> websocket \<Rightarrow> string \<Rightarrow> connection_manager" where
  "disconnect self ws execution_id =
     (case active_connections self execution_id of
        None \<Rightarrow> self
      | Some cs \<Rightarrow>
         (let cs' = (if ws \<in> set cs then remove1 ws cs else cs)
          in if cs' = []
             then self\<lparr>active_connections := (active_connections self)(execution_id := None)\<rparr>
             else self\<lparr>active_connections := (active_connections self)(execution_id \<mapsto> cs')\<rparr>))"

text \<open>
  The first loop of \<^verbatim>\<open>broadcast\<close>: one \<^verbatim>\<open>send_text\<close> per connection, in list order;
  the websockets whose send raised are collected.
\<close>

fun send_to_all ::
  "(websocket \<Rightarrow> event \<Rightarrow> bool) \<Rightarrow> event \<Rightarrow> websocket list \<Rightarrow> websocket list \<times> send list"
  where
  "send_to_all send_ok message [] = ([], [])"
| "send_to_all send_ok message (connection # rest) =
     (let (disconnected_websockets, sends) = send_to_all send_ok message rest
      in if send_ok connection message
         then (disconnected_websockets, (connection, message, True) # sends)
         else (connection # disconnected_websockets, (connection, message, False) # sends))"

text \<open>The second loop of \<^verbatim>\<open>broadcast\<close>.\<close>

fun disconnect_all ::
  "connection_manager \<Rightarrow> websocket list \<Rightarrow> string \<Rightarrow> connection_manager" where
  "disconnect_all self [] execution_id = self"
| "disconnect_all self (ws # rest) execution_id =
     disconnect_all (disconnect self ws execution_id) rest execution_id"

definition broadcast ::
  "(websocket \<Rightarrow> event \<Rightarrow> bool) \<Rightarrow> connection_manager \<Rightarrow> event \<Rightarrow> string
     \<Rightarrow> connection_manager \<times> send list" where
  "broadcast send_ok self message execution_id =
     (case active_connections self execution_id of
        None \<Rightarrow> (self, [])
      | Some cs \<Rightarrow>
         (let (disconnected_websockets, sends) = send_to_all send_ok message cs
          in (disconnect_all self disconnected_websockets execution_id, sends)))"

text \<open>
  \<^verbatim>\<open>websocket_endpoint\<close> up to its receive loop: the websocket is registered, and if
  the execution already has a stored result, that result is sent to it at once. A
  send that raises ends the endpoint through its handler, which disconnects.
\<close>

definition websocket_endpoint ::
  "(websocket \<Rightarrow> event \<Rightarrow> bool) \<Rightarrow> connection_manager \<Rightarrow> executor \<Rightarrow> websocket \<Rightarrow> string
     \<Rightarrow> connection_manager \<times> send list" where
  "websocket_endpoint send_ok manager code_executor ws execution_id =
     (let manager1 = connect manager ws execution_id
      in case execution_results code_executor execution_id of
           None \<Rightarrow> (manager1, [])
         | Some r \<Rightarrow>
            (let message = StatusResult ''completed'' r
             in if send_ok ws message
                then (manager1, [(ws, message, True)])
                else (disconnect manager1 ws execution_id, [(ws, message, False)])))"

definition registered :: "connection_manager \<Rightarrow> string \<Rightarrow> websocket list" where
  "registered self execution_id =
     (case active_connections self execution_id of None \<Rightarrow> [] | Some cs \<Rightarrow> cs)"

definition delivered :: "send list \<Rightarrow> (websocket \<times> event) list" where
  "delivered sends = map (\<lambda>(ws, message, ok). (ws, message)) (filter (\<lambda>(ws, message, ok). ok) sends)"

section \<open>ChatHandler\<close>

record session =
  last_generated_code :: "string option"
  language :: string
  history :: "(string \<times> string) list"

text \<open>
  The dictionaries \<^verbatim>\<open>process_message\<close> returns, by their key \<^verbatim>\<open>type\<close>:
  \<open>CodeExecution content code status execution_time execution_id\<close>,
  \<open>TextResponse content\<close> and \<open>CodeGeneration content message\<close>.
\<close>

datatype response =
    CodeExecution string string string real string
  | TextResponse string
  | CodeGeneration string string

record chat_handler =
  sessions :: "string \<rightharpoonup> session"

definition ChatHandler_init :: chat_handler where
  "ChatHandler_init = \<lparr>sessions = Map.empty\<rparr>"

text \<open>Truth value of \<^verbatim>\<open>session["last_generated_code"]\<close>: neither \<^verbatim>\<open>None\<close> nor empty.\<close>

definition truthy :: "string option \<Rightarrow> bool" where
  "truthy v = (case v of None \<Rightarrow> False | Some s \<Rightarrow> s \<noteq> [])"

text \<open>
  The block both run branches share: a fresh id, the call of \<^verbatim>\<open>execute_c_code\<close>
  without a broadcaster, and the response built from its result.
\<close>

definition execute_and_respond ::
  "environment \<Rightarrow> executor \<Rightarrow> string \<Rightarrow> string \<Rightarrow> response \<times> executor \<times> effect list" where
  "execute_and_respond env code_executor code input_data =
     (let ((execution_id, res), code_executor', effs) =
            execute_c_code env code_executor code input_data (Some (uuid4 env)) False
      in (CodeExecution
            (if status_code res = 0 then output_text res else error res)
            code
            (if status_code res = 0 then ''success'' else ''error'')
            (execution_time res)
            execution_id,
          code_executor', effs))"

definition get_session :: "chat_handler \<Rightarrow> string \<Rightarrow> session" where
  "get_session self session_id =
     (case sessions self session_id of
        None \<Rightarrow> \<lparr>last_generated_code = None, language = ''c'', history = []\<rparr>
      | Some s \<Rightarrow> s)"

definition process_message ::
  "environment \<Rightarrow> chat_handler \<times> executor \<Rightarrow> string \<Rightarrow> string \<Rightarrow> string
     \<Rightarrow> response \<times> (chat_handler \<times> executor) \<times> effect list" where
  "process_message env st message input_data session_id =
     (let self = fst st; code_executor = snd st;
          session0 = get_session self session_id;
          session1 = session0\<lparr>history := history session0 @ [(''user'', message)]\<rparr>;
          store = (\<lambda>s. self\<lparr>sessions := (sessions self)(session_id \<mapsto> s)\<rparr>)
      in if is_run_previous_code_request message \<and> truthy (last_generated_code session1) then
           (let code = (case last_generated_code session1 of None \<Rightarrow> [] | Some c \<Rightarrow> c);
                lang = language session1;
                session2 = session1\<lparr>history := history session1
                             @ [(''assistant'', ''Executing previously generated code.'')]\<rparr>
            in if lower lang \<in> {''c'', []} then
                 (let (resp, code_executor', effs) =
                        execute_and_respond env code_executor code input_data
                  in (resp, (store session2, code_executor'), effs))
               else
                 (TextResponse (''Sorry, I can only execute C code right now. ''
                    @ ''The generated code is in '' @ lang @ ''.''),
                  (store session2, code_executor), []))
         else
           (case extract_code message of
              Some (lang, code) \<Rightarrow>
                (let session2 = session1\<lparr>last_generated_code := Some code, language := lang,
                                 history := history session1
                                   @ [(''assistant'', ''Received code to execute.'')]\<rparr>
                 in if lower lang \<in> {''c'', []} then
                      (let (resp, code_executor', effs) =
                             execute_and_respond env code_executor code input_data
                       in (resp, (store session2, code_executor'), effs))
                    else
                      (TextResponse (''Sorry, I can only execute C code right now. ''
                         @ ''You provided '' @ lang @ '' code.''),
                       (store session2, code_executor), []))
            | None \<Rightarrow>
                (let is_code_request =
                       (case classify_request env message of Inl e \<Rightarrow> False | Inr b \<Rightarrow> b)
                 in if is_code_request then
                      (case generate_code env message of
                         Inr code \<Rightarrow>
                           (CodeGeneration code
                              (''Here'' @ [CHR 0x27] @ ''s the generated C code based on your request:''),
                            (store (session1\<lparr>last_generated_code := Some code, language := ''c'',
                                      history := history session1 @ [(''assistant'', code)]\<rparr>),
                             code_executor), [])
                       | Inl e \<Rightarrow>
                           (TextResponse (''Failed to generate code: '' @ e),
                            (store session1, code_executor), []))
                    else
                      (case generate_chat_response env (history session1) of
                         Inr chat_response \<Rightarrow>
                           (TextResponse chat_response,
                            (store (session1\<lparr>history := history session1
                                      @ [(''assistant'', chat_response)]\<rparr>),
                             code_executor), [])
                       | Inl e \<Rightarrow>
                           (TextResponse (''Chat error: '' @ e),
                            (store session1, code_executor), [])))))"

text \<open>
  Messages of one session processed one after the other, each in the environment it
  meets: an item is the environment, the message and the input data.
\<close>

fun process_messages ::
  "(environment \<times> string \<times> string) list \<Rightarrow> string \<Rightarrow> chat_handler \<times> executor
     \<Rightarrow> chat_handler \<times> executor" where
  "process_messages [] session_id st = st"
| "process_messages ((env, message, input_data) # rest) session_id st =
     process_messages rest session_id
       (fst (snd (process_message env st message input_data session_id)))"

text \<open>
  The generation service answers in this environment: neither \<^verbatim>\<open>generate_code\<close> nor
  \<^verbatim>\<open>generate_chat_response\<close> raises.
\<close>

definition generation_answers :: "environment \<Rightarrow> bool" where
  "generation_answers env =
     ((\<forall>prompt. \<exists>code. generate_code env prompt = Inr code)
      \<and> (\<forall>h. \<exists>reply. generate_chat_response env h = Inr reply))"

text \<open>
  The generate or chat call made for this message raises: the message reaches the
  third or fourth branch, and the call of that branch, with the arguments it gets
  there, raises.
\<close>

definition generation_call_fails ::
  "environment \<Rightarrow> chat_handler \<times> executor \<Rightarrow> string \<Rightarrow> string \<Rightarrow> bool" where
  "generation_call_fails env st message session_id =
     (\<not> (is_run_previous_code_request message
          \<and> truthy (last_generated_code (get_session (fst st) session_id)))
      \<and> extract_code message = None
      \<and> (if (case classify_request env message of Inl e \<Rightarrow> False | Inr b \<Rightarrow> b)
          then isl (generate_code env message)
          else isl (generate_chat_response env
                      (history (get_session (fst st) session_id) @ [(''user'', message)]))))"

text \<open>
  The turns one message adds: the user turn holding the message alone when its call
  failed, and else that turn followed by one assistant turn.
\<close>

fun turn_shape :: "bool \<Rightarrow> string \<Rightarrow> (string \<times> string) list \<Rightarrow> bool" where
  "turn_shape failed message [u] = (failed \<and> u = (''user'', message))"
| "turn_shape failed message [u, a] =
     (\<not> failed \<and> u = (''user'', message) \<and> fst a = ''assistant'')"
| "turn_shape failed message ts = False"

text \<open>For each message of a sequence, whether its call fails in the state it meets.\<close>

fun generation_failures ::
  "(environment \<times> string \<times> string) list \<Rightarrow> string \<Rightarrow> chat_handler \<times> executor \<Rightarrow> bool list"
  where
  "generation_failures [] session_id st = []"
| "generation_failures ((env, message, input_data) # rest) session_id st =
     generation_call_fails env st message session_id
     # generation_failures rest session_id
         (fst (snd (process_message env st message input_data session_id)))"

definition subprocesses :: "effect list \<Rightarrow> (string list \<times> nat option) list" where
  "subprocesses effs =
     concat (map (\<lambda>e. case e of Subprocess args t \<Rightarrow> [(args, t)] | _ \<Rightarrow> []) effs)"

text \<open>
  Calls of \<^verbatim>\<open>execute_c_code\<close> on one executor, one after the other: an item is
  the environment and the arguments of the call.
\<close>

fun execute_calls ::
  "(environment \<times> string \<times> string \<times> string option \<times> bool) list \<Rightarrow> executor \<Rightarrow> executor" where
  "execute_calls [] self = self"
| "execute_calls ((env, code, input_data, eid, ws) # rest) self =
     execute_calls rest (fst (snd (execute_c_code env self code input_data eid ws)))"

section \<open>Sample environments\<close>

text \<open>
  The codec \<^verbatim>\<open>ascii\<close>: a byte below 128 is the character of that code, any other
  byte raises (the text of the exception is cut to its last part).
\<close>

definition decode_ascii :: "byte list \<Rightarrow> string + string" where
  "decode_ascii bs =
     (if list_all (\<lambda>b. b < 128) bs then Inr (map (\<lambda>b. char_of (unat b)) bs)
      else Inl ''ordinal not in range(128)'')"

text \<open>A program that prints \<open>hi\<close> and exits 0.\<close>

definition hi_program :: string where
  "hi_program =
     ''#include <stdio.h>'' @ [newline] @ ''int main(){putchar(104);putchar(105);return 0;}''"

text \<open>
  An environment in which every file write goes through, the compiler accepts the
  source without a message, \<open>hi_program\<close> prints \<open>hi\<close>, any other program prints
  nothing, both exit 0, and the generation service answers; the call takes half a
  second.
\<close>

definition env_ok :: environment where
  "env_ok =
     \<lparr>uuid4 = ''6f1c'', time_entry = 100, time_final = 100 + 1 / 2,
      write_file = (\<lambda>name text. None),
      gcc = (\<lambda>code. Inr (0, [])),
      run_program = (\<lambda>code input_data.
        if code = hi_program then Exited [0x68, 0x69] [] 0 else Exited [] [] 0),
      decode = decode_ascii,
      classify_request = (\<lambda>message. Inr False),
      generate_code = (\<lambda>prompt. Inr ''int main(){return 0;}''),
      generate_chat_response = (\<lambda>h. Inr ''Hello.'')\<rparr>"

text \<open>The same, with a program that never ends.\<close>

definition env_loop :: environment where
  "env_loop = env_ok\<lparr>run_program := (\<lambda>code input_data. TimeoutExpired)\<rparr>"

text \<open>The same, with a program that writes the single byte 255 and exits 0.\<close>

definition env_raw_byte :: environment where
  "env_raw_byte = env_ok\<lparr>run_program := (\<lambda>code input_data. Exited [0xFF] [] 0)\<rparr>"

text \<open>The same, with a program that writes \<open>a\<close>, CR, LF and exits 0.\<close>

definition env_crlf :: environment where
  "env_crlf = env_ok\<lparr>run_program := (\<lambda>code input_data. Exited [0x61, 0x0D, 0x0A] [] 0)\<rparr>"

text \<open>The same, with a generation service whose chat call fails.\<close>

definition env_chat_down :: environment where
  "env_chat_down = env_ok\<lparr>generate_chat_response := (\<lambda>h. Inl ''Connection error.'')\<rparr>"

text \<open>Three websockets registered one after the other for the execution \<open>abc\<close>.\<close>

definition three_sockets :: connection_manager where
  "three_sockets = connect (connect (connect ConnectionManager_init 1 ''abc'') 2 ''abc'') 3 ''abc''"

definition executor_ok :: executor where
  "executor_ok = \<lparr>gcc_available = True, execution_results = Map.empty\<rparr>"

definition executor_no_gcc :: executor where
  "executor_no_gcc = \<lparr>gcc_available = False, execution_results = Map.empty\<rparr>"

text \<open>
  A message that holds a code block, the same message with a run phrase in front, and a
  handler whose session \<open>default\<close> holds code generated earlier.
\<close>

definition code_block_message :: string where
  "code_block_message = ''```c'' @ [newline] @ hi_program @ [newline] @ ''```''"

definition run_and_block_message :: string where
  "run_and_block_message = ''run it'' @ [newline] @ code_block_message"

text \<open>
  A message with some words, a block tagged \<open>C\<close> whose body is \<open>hi_program\<close> between
  blanks, and a second block after it.
\<close>

definition two_block_message :: string where
  "two_block_message =
     ''Try: '' @ fence @ CHR ''C'' # '' '' @ newline # (''  '' @ hi_program @ '' '')
     @ newline # fence
     @ (newline # ''```c'' @ [newline] @ ''int main(){return 1;}'' @ [newline] @ ''```'')"

definition session_with_code :: chat_handler where
  "session_with_code =
     \<lparr>sessions = [''default'' \<mapsto>
        \<lparr>last_generated_code = Some ''int main(){return 0;}'', language = ''c'',
         history = [(''user'', ''write a program''), (''assistant'', ''int main(){return 0;}'')]\<rparr>]\<rparr>"

section \<open>The executor, case by case\<close>

lemma execute_unavailable:
  "\<not> gcc_available self \<Longrightarrow>
   execute_c_code env self code input_data eid ws =
     (((case eid of None \<Rightarrow> uuid4 env | Some i \<Rightarrow> i),
       \<lparr>output_text = [], error = unavailable_message, status_code = 1, execution_time = 0\<rparr>),
      self\<lparr>execution_results := (execution_results self)
         ((case eid of None \<Rightarrow> uuid4 env | Some i \<Rightarrow> i) \<mapsto>
           \<lparr>output_text = [], error = unavailable_message, status_code = 1, execution_time = 0\<rparr>)\<rparr>,
      send_status ws (StatusError ''error'' unavailable_message)
        (case eid of None \<Rightarrow> uuid4 env | Some i \<Rightarrow> i))"
  by (simp add: execute_c_code_def Let_def)

lemma execute_available:
  "gcc_available self \<Longrightarrow>
   execute_c_code env self code input_data eid ws =
     (let i = (case eid of None \<Rightarrow> uuid4 env | Some i \<Rightarrow> i);
          p = compile_and_run env ws i code input_data
                \<lparr>output_text = [], error = [], status_code = 0, execution_time = 0\<rparr>;
          r = (fst p)\<lparr>execution_time := time_final env - time_entry env\<rparr>
      in ((i, r), self\<lparr>execution_results := (execution_results self)(i \<mapsto> r)\<rparr>,
          [Mkdtemp] @ snd p @ [Rmtree] @ send_status ws (StatusResult ''completed'' r) i))"
  by (simp add: execute_c_code_def Let_def split: prod.splits)


lemma run_step_exited:
  assumes "input_data \<noteq> [] \<longrightarrow> write_file env ''input.txt'' input_data = None"
    and "run_program env code input_data = Exited out_bytes err_bytes rc"
    and "captured_text env out_bytes err_bytes = Inr (out, err)"
  shows "run_step env code input_data res =
           (res\<lparr>output_text := out, error := (if err \<noteq> [] then err else error res),
                status_code := rc\<rparr>,
            (if input_data \<noteq> [] then [WriteFile ''input.txt'' input_data] else [])
            @ [Subprocess [''program''] (Some 10)])"
  using assms by (simp add: run_step_def)

lemma run_step_undecodable:
  assumes "input_data \<noteq> [] \<longrightarrow> write_file env ''input.txt'' input_data = None"
    and "run_program env code input_data = Exited out_bytes err_bytes rc"
    and "captured_text env out_bytes err_bytes = Inl e"
  shows "run_step env code input_data res =
           (res\<lparr>error := ''Execution error: '' @ e, status_code := 1\<rparr>,
            (if input_data \<noteq> [] then [WriteFile ''input.txt'' input_data] else [])
            @ [Subprocess [''program''] (Some 10)])"
  using assms by (simp add: run_step_def)

lemma replace_crlf_without_cr: "carriage_return \<notin> set s \<Longrightarrow> replace_crlf s = s"
  by (induction s rule: replace_crlf.induct) auto

lemma replace_cr_without_cr: "carriage_return \<notin> set s \<Longrightarrow> replace_cr s = s"
  by (induction s) (auto simp add: replace_cr_def)

lemma translate_newlines_without_cr:
  "carriage_return \<notin> set s \<Longrightarrow> translate_newlines s = s"
  by (simp add: translate_newlines_def replace_crlf_without_cr replace_cr_without_cr)

lemma translate_newlines_empty: "translate_newlines [] = []"
  by (simp add: translate_newlines_def replace_cr_def)

lemma run_step_timeout:
  assumes "input_data \<noteq> [] \<longrightarrow> write_file env ''input.txt'' input_data = None"
    and "run_program env code input_data = TimeoutExpired"
  shows "run_step env code input_data res =
           (res\<lparr>error := timeout_message, status_code := 1\<rparr>,
            (if input_data \<noteq> [] then [WriteFile ''input.txt'' input_data] else [])
            @ [Subprocess [''program''] (Some 10)])"
  using assms by (simp add: run_step_def)

lemma compile_and_run_compiled:
  assumes "write_file env ''program.c'' code = None"
    and "gcc env code = Inr (0, compiler_stderr)"
  shows "compile_and_run env ws i code input_data res =
           (fst (run_step env code input_data res),
            send_status ws (Status ''starting'') i @ [WriteFile ''program.c'' code]
            @ send_status ws (Status ''compiling'') i
            @ [Subprocess [''gcc'', ''-o'', ''program'', ''program.c''] None]
            @ send_status ws (Status ''running'') i
            @ snd (run_step env code input_data res))"
  using assms by (simp add: compile_and_run_def Let_def split: prod.splits)

lemma subprocesses_simps:
  "subprocesses [] = []"
  "subprocesses (xs @ ys) = subprocesses xs @ subprocesses ys"
  "subprocesses (Subprocess args t # xs) = (args, t) # subprocesses xs"
  "subprocesses (Mkdtemp # xs) = subprocesses xs"
  "subprocesses (Rmtree # xs) = subprocesses xs"
  "subprocesses (WriteFile n c # xs) = subprocesses xs"
  "subprocesses (Broadcast ev i # xs) = subprocesses xs"
  "subprocesses (send_status ws ev i) = []"
  by (simp_all add: subprocesses_def send_status_def)

lemma broadcasts_simps:
  "broadcasts [] = []"
  "broadcasts (xs @ ys) = broadcasts xs @ broadcasts ys"
  "broadcasts (Broadcast ev i # xs) = (ev, i) # broadcasts xs"
  "broadcasts (Mkdtemp # xs) = broadcasts xs"
  "broadcasts (Rmtree # xs) = broadcasts xs"
  "broadcasts (WriteFile n c # xs) = broadcasts xs"
  "broadcasts (Subprocess args t # xs) = broadcasts xs"
  "broadcasts (send_status ws ev i) = (if ws then [(ev, i)] else [])"
  by (simp_all add: broadcasts_def send_status_def)

lemma broadcasts_run_step: "broadcasts (snd (run_step env code input_data res)) = []"
  by (simp add: run_step_def broadcasts_simps
      split: option.splits run_outcome.splits sum.splits prod.splits)

lemma broadcasts_compile_and_run:
  "broadcasts (snd (compile_and_run env ws i code input_data res)) =
     (if \<not> ws then []
      else (Status ''starting'', i) #
           (case write_file env ''program.c'' code of
              Some e \<Rightarrow> [(StatusError ''error'' e, i)]
            | None \<Rightarrow>
               (Status ''compiling'', i) #
               (case gcc env code of
                  Inl e \<Rightarrow> [(StatusError ''error'' e, i)]
                | Inr (rc, err) \<Rightarrow>
                    (if rc \<noteq> 0 then [(StatusError ''compile_error'' err, i)]
                     else [(Status ''running'', i)]))))"
  using broadcasts_run_step [of env code input_data res]
  by (auto simp add: compile_and_run_def unexpected_def Let_def broadcasts_simps
      split: option.splits sum.splits prod.splits)

lemma execute_keeps_gcc_available:
  "gcc_available (fst (snd (execute_c_code env self code input_data eid ws))) = gcc_available self"
  by (cases "gcc_available self")
     (simp_all add: execute_unavailable execute_available Let_def)

lemma execute_calls_keep_gcc_available:
  "gcc_available (execute_calls calls self) = gcc_available self"
  by (induction calls self rule: execute_calls.induct)
     (simp_all add: execute_keeps_gcc_available)

text \<open>With the toolchain available the elapsed time is taken in every branch.\<close>

lemma execution_time_available:
  assumes "gcc_available self"
    and "execute_c_code env self code input_data eid ws = ((i, r), self', effs)"
  shows "execution_time r = time_final env - time_entry env"
  using assms by (auto simp add: execute_available Let_def)

section \<open>The connection manager, step by step\<close>

lemma registered_connect:
  "registered (connect self ws execution_id) execution_id = registered self execution_id @ [ws]"
  by (simp add: registered_def connect_def Let_def)

lemma registered_disconnect:
  "registered (disconnect self ws execution_id) execution_id
     = remove1 ws (registered self execution_id)"
proof (cases "active_connections self execution_id")
  case None
  then show ?thesis by (simp add: registered_def disconnect_def)
next
  case (Some cs)
  then show ?thesis
    by (cases "remove1 ws cs = []")
       (auto simp add: registered_def disconnect_def Let_def remove1_idem)
qed

lemma disconnect_other:
  "other \<noteq> execution_id \<Longrightarrow>
   active_connections (disconnect self ws execution_id) other = active_connections self other"
  by (simp add: disconnect_def Let_def split: option.splits)

lemma registered_disconnect_all:
  "registered (disconnect_all self ds execution_id) execution_id
     = fold remove1 ds (registered self execution_id)"
  by (induction self ds execution_id rule: disconnect_all.induct)
     (simp_all add: registered_disconnect)

lemma disconnect_all_other:
  "other \<noteq> execution_id \<Longrightarrow>
   active_connections (disconnect_all self ds execution_id) other = active_connections self other"
  by (induction self ds execution_id rule: disconnect_all.induct)
     (simp_all add: disconnect_other)

text \<open>Removing, one by one, the entries that fail a test leaves those that pass it.\<close>

lemma fold_remove1_failed:
  "\<forall>x \<in> set pre. ok x \<Longrightarrow>
   fold remove1 (filter (\<lambda>x. \<not> ok x) cs) (pre @ cs) = pre @ filter ok cs"
proof (induction cs arbitrary: pre)
  case Nil
  then show ?case by simp
next
  case (Cons c cs)
  show ?case
  proof (cases "ok c")
    case True
    with Cons.prems have "\<forall>x \<in> set (pre @ [c]). ok x" by simp
    from Cons.IH [OF this] True show ?thesis by simp
  next
    case False
    with Cons.prems have "c \<notin> set pre" by auto
    then have "remove1 c (pre @ c # cs) = pre @ cs" by (simp add: remove1_append)
    with Cons.IH [OF Cons.prems] False show ?thesis by simp
  qed
qed

lemma send_to_all_failed:
  "fst (send_to_all send_ok message cs) = filter (\<lambda>ws. \<not> send_ok ws message) cs"
  by (induction cs) (auto simp add: Let_def split: prod.splits)

lemma send_to_all_sends:
  "snd (send_to_all send_ok message cs) = map (\<lambda>ws. (ws, message, send_ok ws message)) cs"
  by (induction cs) (auto simp add: Let_def split: prod.splits)

lemma delivered_map:
  "delivered (map (\<lambda>ws. (ws, message, ok ws)) cs) = map (\<lambda>ws. (ws, message)) (filter ok cs)"
  by (induction cs) (simp_all add: delivered_def)

section \<open>What the pattern matches\<close>

lemma starts_with_self: "starts_with p (p @ q)"
  by (induction p) simp_all

lemma starts_with_longer:
  "length p \<le> length u \<Longrightarrow> starts_with p (u @ v) = starts_with p u"
  by (induction p u rule: starts_with.induct) simp_all

lemma newline_not_backtick: "newline \<noteq> CHR 0x60"
  by code_simp

text \<open>A closing fence cannot begin inside the text before it and end inside itself.\<close>

lemma closing_fence_not_astride:
  assumes "u \<noteq> []"
    and "starts_with (newline # fence) (u @ newline # fence @ post)"
  shows "starts_with (newline # fence) u"
proof (cases "4 \<le> length u")
  case True
  then have "length (newline # fence) \<le> length u" by (simp add: fence_def)
  from starts_with_longer [OF this] assms(2) show ?thesis by simp
next
  case False
  then consider a where "u = [a]" | a b where "u = [a, b]" | a b c where "u = [a, b, c]"
    using assms(1)
    by (cases u; cases "tl u"; cases "tl (tl u)"; cases "tl (tl (tl u))") auto
  then show ?thesis
    using assms(2) newline_not_backtick by cases (auto simp add: fence_def)
qed

lemma contains_append_right: "contains p b \<Longrightarrow> contains p (a @ b)"
  by (induction a) simp_all

lemma contains_after_no_newline:
  "newline \<notin> set w \<Longrightarrow> contains (newline # fence) (w @ core) = contains (newline # fence) core"
  by (induction w) auto

lemma lazy_group_to_closing_fence:
  "\<not> contains (newline # fence) xs \<Longrightarrow>
   lazy_group acc (xs @ newline # fence @ post) = Some (acc @ xs, post)"
proof (induction xs arbitrary: acc)
  case Nil
  have "starts_with (newline # fence) ((newline # fence) @ post)" by (rule starts_with_self)
  then show ?case by (simp add: fence_def)
next
  case (Cons x xs)
  from Cons.prems have a: "\<not> starts_with (newline # fence) (x # xs)"
    and b: "\<not> contains (newline # fence) xs" by simp_all
  from a closing_fence_not_astride [of "x # xs" post]
  have "\<not> starts_with (newline # fence) ((x # xs) @ newline # fence @ post)" by blast
  then have "lazy_group acc ((x # xs) @ newline # fence @ post)
               = lazy_group (acc @ [x]) (xs @ newline # fence @ post)"
    by (simp del: starts_with.simps)
  with Cons.IH [OF b, of "acc @ [x]"] show ?case by simp
qed

text \<open>What is left of a run of whitespace after its last newline.\<close>

fun after_last_newline :: "string \<Rightarrow> string" where
  "after_last_newline [] = []"
| "after_last_newline (y # w) =
     (if newline \<in> set w then after_last_newline w else if y = newline then w else y # w)"

lemma after_last_newline_spaces:
  "list_all is_space w \<Longrightarrow> list_all is_space (after_last_newline w)"
  by (induction w) simp_all

lemma spaces_newline_block:
  assumes "core \<noteq> []" and "\<not> is_space (hd core)"
    and "\<not> contains (newline # fence) core"
  shows "list_all is_space w \<Longrightarrow>
         spaces_newline (w @ core @ newline # fence @ post)
           = (if newline \<in> set w then Some (after_last_newline w @ core, post) else None)"
proof (induction w)
  case Nil
  from assms(1,2) show ?case by (cases core) simp_all
next
  case (Cons y w)
  then have sp: "is_space y" and w: "list_all is_space w" by simp_all
  show ?case
  proof (cases "newline \<in> set w")
    case True
    with Cons.IH [OF w] sp show ?thesis by simp
  next
    case False
    with Cons.IH [OF w] have none: "spaces_newline (w @ core @ newline # fence @ post) = None"
      by simp
    show ?thesis
    proof (cases "y = newline")
      case True
      from assms(1) obtain z rest where zr: "w @ core = z # rest"
        by (cases "w @ core") simp_all
      from False assms(3) have "\<not> contains (newline # fence) (w @ core)"
        by (simp add: contains_after_no_newline)
      with zr have "\<not> contains (newline # fence) rest" by simp
      from lazy_group_to_closing_fence [OF this, of "[z]" post]
      have lg: "lazy_group [z] (rest @ newline # fence @ post) = Some (w @ core, post)"
        using zr by simp
      have e: "w @ core @ newline # fence @ post = z # rest @ newline # fence @ post"
        using zr by (metis append_Cons append_assoc)
      show ?thesis
        using sp none True \<open>newline \<notin> set w\<close> by (simp add: e lg)
    next
      case False
      with sp none \<open>newline \<notin> set w\<close> show ?thesis by simp
    qed
  qed
qed

lemma is_space_newline: "is_space newline"
  by (simp add: is_space_def newline_def)

lemma strip_after_spaces:
  assumes "list_all is_space a" and "core \<noteq> []" and "\<not> is_space (hd core)"
  shows "strip (a @ core) = strip core"
proof -
  from assms(1) have "dropWhile is_space (a @ core) = dropWhile is_space core"
    by (simp add: list_all_iff)
  then show ?thesis by (simp add: strip_def)
qed

text \<open>
  A block with a body that is not blank and holds no newline followed by a fence: the
  match at its opening fence ends at the first closing fence, and the group is the
  body up to whitespace at its start.
\<close>

lemma match_here_block:
  assumes "lower_char t = CHR ''c''"
    and "list_all is_space ws"
    and "\<not> list_all is_space body"
    and "\<not> contains (newline # fence) body"
  shows "\<exists>g. match_here (fence @ t # ws @ newline # body @ newline # fence @ post) = Some (g, post)
             \<and> strip g = strip body"
proof -
  let ?lead = "takeWhile is_space body" and ?core = "dropWhile is_space body"
  let ?w = "ws @ newline # ?lead"
  have body: "body = ?lead @ ?core" by simp
  from assms(3) have core: "?core \<noteq> []" by (simp add: list_all_iff)
  then have hd: "\<not> is_space (hd ?core)" by (rule hd_dropWhile)
  have lead: "list_all is_space ?lead" by (simp add: list_all_iff) (meson set_takeWhileD)
  have nc: "\<not> contains (newline # fence) ?core"
  proof
    assume "contains (newline # fence) ?core"
    from contains_append_right [OF this, of ?lead] have "contains (newline # fence) body"
      by simp
    with assms(4) show False by simp
  qed
  from assms(2) lead have w: "list_all is_space ?w" by (simp add: is_space_newline)
  have "body @ newline # fence @ post = ?lead @ ?core @ newline # fence @ post"
    by (metis append_assoc takeWhile_dropWhile_id)
  then have e: "ws @ newline # body @ newline # fence @ post
                  = ?w @ ?core @ newline # fence @ post"
    by simp
  have "match_here (fence @ t # ws @ newline # body @ newline # fence @ post)
          = spaces_newline (ws @ newline # body @ newline # fence @ post)"
    using assms(1) by (simp add: fence_def)
  also have "\<dots> = spaces_newline (?w @ ?core @ newline # fence @ post)"
    by (simp only: e)
  also have "\<dots> = Some (after_last_newline ?w @ ?core, post)"
    using spaces_newline_block [OF core hd nc w, of post] by simp
  finally have m: "match_here (fence @ t # ws @ newline # body @ newline # fence @ post)
                     = Some (after_last_newline ?w @ ?core, post)" .
  have "strip (after_last_newline ?w @ ?core) = strip ?core"
    by (rule strip_after_spaces [OF after_last_newline_spaces [OF w] core hd])
  moreover have "strip body = strip ?core"
    using strip_after_spaces [OF lead core hd] by simp
  ultimately show ?thesis using m by simp
qed

text \<open>Before the first fence of the text there is no match.\<close>

lemma findall_skips_text_without_fence:
  assumes "match_here (fence @ rest) = Some (g, r)"
  shows "\<not> contains fence pre \<Longrightarrow> findall (pre @ fence @ rest) = g # findall r"
proof (induction pre)
  case Nil
  from assms show ?case by (subst findall.simps) simp
next
  case (Cons x pre)
  then have a: "\<not> starts_with fence (x # pre)" and b: "\<not> contains fence pre" by simp_all
  have "match_here ((x # pre) @ fence @ rest) = None"
  proof (cases pre)
    case Nil
    then show ?thesis by (simp add: fence_def lower_char_def)
  next
    case (Cons a pre')
    show ?thesis
    proof (cases pre')
      case Nil
      with Cons show ?thesis by (simp add: fence_def lower_char_def)
    next
      case (Cons b pre'')
      with \<open>pre = a # pre'\<close> a show ?thesis
        by (cases "pre'' @ fence @ rest") (auto simp add: fence_def)
    qed
  qed
  then have "findall ((x # pre) @ fence @ rest) = findall (pre @ fence @ rest)"
    by (subst findall.simps) simp
  with Cons.IH [OF b] show ?case by simp
qed

text \<open>
  \<^verbatim>\<open>_extract_code\<close> on a text whose first fence opens a block tagged \<open>c\<close> or \<open>C\<close>,
  with a body that is not blank and holds no newline followed by a fence: the result is
  that body, stripped, whatever follows the block.
\<close>

lemma extract_code_first_block:
  assumes "\<not> contains fence pre"
    and "lower_char t = CHR ''c''"
    and "list_all is_space ws"
    and "\<not> list_all is_space body"
    and "\<not> contains (newline # fence) body"
  shows "extract_code (pre @ fence @ t # ws @ newline # body @ newline # fence @ post)
           = Some (''c'', strip body)"
proof -
  from match_here_block [OF assms(2-5), of post]
  obtain g where m: "match_here (fence @ t # ws @ newline # body @ newline # fence @ post)
                       = Some (g, post)"
    and s: "strip g = strip body" by blast
  from findall_skips_text_without_fence [OF m assms(1)] s show ?thesis
    by (simp add: extract_code_def)
qed

text \<open>A block that holds one empty line is not matched.\<close>

lemma empty_line_block_not_extracted:
  "extract_code (''```c'' @ [newline, newline] @ ''```'') = None"
  by code_simp

section \<open>The chat handler, branch by branch\<close>

lemma extract_code_language: "extract_code message = Some (lang, code) \<Longrightarrow> lang = ''c''"
  by (auto simp add: extract_code_def split: list.splits)

lemma get_session_store:
  "get_session (self\<lparr>sessions := (sessions self)(session_id \<mapsto> s)\<rparr>) session_id = s"
  by (simp add: get_session_def)

lemma lower_c: "lower ''c'' = ''c''"
  by code_simp

text \<open>Branch 2, reached when branch 1 does not fire and the message holds a block.\<close>

lemma process_message_provide_and_run:
  assumes "extract_code message = Some (lang, code)"
    and "\<not> (is_run_previous_code_request message
            \<and> truthy (last_generated_code (get_session (fst st) session_id)))"
  shows "process_message env st message input_data session_id =
           (fst (execute_and_respond env (snd st) code input_data),
            ((fst st)\<lparr>sessions := (sessions (fst st))(session_id \<mapsto>
                (get_session (fst st) session_id)
                  \<lparr>last_generated_code := Some code, language := ''c'',
                   history := history (get_session (fst st) session_id)
                     @ [(''user'', message), (''assistant'', ''Received code to execute.'')]\<rparr>)\<rparr>,
             fst (snd (execute_and_respond env (snd st) code input_data))),
            snd (snd (execute_and_respond env (snd st) code input_data)))"
proof -
  from assms(1) have l: "lang = ''c''" by (rule extract_code_language)
  from assms show ?thesis
    unfolding l
    by (auto simp add: process_message_def Let_def lower_c split: prod.splits)
qed

text \<open>What one message adds to the history of its session.\<close>

lemma process_message_turns:
  "take (length (history (get_session (fst st) session_id)))
     (history (get_session
        (fst (fst (snd (process_message env st message input_data session_id)))) session_id))
     = history (get_session (fst st) session_id)
   \<and> turn_shape (generation_call_fails env st message session_id) message
       (drop (length (history (get_session (fst st) session_id)))
          (history (get_session
             (fst (fst (snd (process_message env st message input_data session_id))))
             session_id)))"
  by (auto simp add: process_message_def generation_call_fails_def Let_def get_session_store
      split: prod.splits option.splits sum.splits)

lemma turn_shape_length: "turn_shape failed message ts \<Longrightarrow> length ts = (if failed then 1 else 2)"
  by (induction failed message ts rule: turn_shape.induct) auto

lemma generation_answers_no_failure:
  "generation_answers env \<Longrightarrow> \<not> generation_call_fails env st message session_id"
proof -
  assume a: "generation_answers env"
  have g: "\<not> isl (generate_code env message)"
    using a unfolding generation_answers_def by (metis sum.disc(2))
  have c: "\<not> isl (generate_chat_response env h)" for h
    using a unfolding generation_answers_def by (metis sum.disc(2))
  from g c show ?thesis by (simp add: generation_call_fails_def)
qed

lemma process_messages_turns:
  "\<exists>tss. history (get_session (fst (process_messages items session_id st)) session_id)
           = history (get_session (fst st) session_id) @ concat tss
         \<and> list_all2 (\<lambda>(failed, item) ts. turn_shape failed (fst (snd item)) ts)
             (zip (generation_failures items session_id st) items) tss"
proof (induction items session_id st rule: process_messages.induct)
  case (1 session_id st)
  show ?case by simp
next
  case (2 env message input_data rest session_id st)
  let ?st1 = "fst (snd (process_message env st message input_data session_id))"
  let ?h0 = "history (get_session (fst st) session_id)"
  let ?h1 = "history (get_session (fst ?st1) session_id)"
  from process_message_turns [of st session_id env message input_data]
  have t: "take (length ?h0) ?h1 = ?h0"
    and s: "turn_shape (generation_call_fails env st message session_id) message
              (drop (length ?h0) ?h1)"
    by simp_all
  from t have h1: "?h1 = ?h0 @ drop (length ?h0) ?h1"
    by (metis append_take_drop_id)
  from "2.IH" obtain tss where
    f: "history (get_session (fst (process_messages rest session_id ?st1)) session_id)
          = ?h1 @ concat tss"
    and l: "list_all2 (\<lambda>(failed, item) ts. turn_shape failed (fst (snd item)) ts)
              (zip (generation_failures rest session_id ?st1) rest) tss"
    by blast
  let ?tss = "drop (length ?h0) ?h1 # tss"
  from f h1
  have "history (get_session
          (fst (process_messages ((env, message, input_data) # rest) session_id st)) session_id)
          = ?h0 @ concat ?tss"
    by simp
  moreover from s l
  have "list_all2 (\<lambda>(failed, item) ts. turn_shape failed (fst (snd item)) ts)
          (zip (generation_failures ((env, message, input_data) # rest) session_id st)
             ((env, message, input_data) # rest)) ?tss"
    by simp
  ultimately show ?case by blast
qed

lemma process_messages_length:
  "length (history (get_session (fst (process_messages items session_id st)) session_id))
     + length (filter id (generation_failures items session_id st))
   = length (history (get_session (fst st) session_id)) + 2 * length items"
proof (induction items session_id st rule: process_messages.induct)
  case (1 session_id st)
  show ?case by simp
next
  case (2 env message input_data rest session_id st)
  let ?st1 = "fst (snd (process_message env st message input_data session_id))"
  let ?h0 = "history (get_session (fst st) session_id)"
  let ?h1 = "history (get_session (fst ?st1) session_id)"
  from process_message_turns [of st session_id env message input_data]
  have t: "take (length ?h0) ?h1 = ?h0"
    and s: "turn_shape (generation_call_fails env st message session_id) message
              (drop (length ?h0) ?h1)"
    by simp_all
  from t have le: "length ?h0 \<le> length ?h1"
    by (metis length_take min.cobounded1)
  from turn_shape_length [OF s] le
  have n: "length ?h1 = length ?h0
             + (if generation_call_fails env st message session_id then 1 else 2)"
    by (simp split: if_splits)
  from "2.IH" n show ?case by simp
qed

lemma generation_answers_no_failures:
  "\<forall>item \<in> set items. generation_answers (fst item) \<Longrightarrow>
   filter id (generation_failures items session_id st) = []"
  by (induction items session_id st rule: generation_failures.induct)
     (simp_all add: generation_answers_no_failure)

section \<open>Claims on the execution engine\<close>

text \<open>
  Claim C3, as stated, fails: the program is run in text mode. A program that compiles,
  writes the byte 255 and exits 0 within the cap gets \<open>status_code\<close> 1 and an empty
  \<open>output\<close>, since that byte does not decode; and a program that writes \<open>a\<close>, CR, LF
  gets an \<open>output\<close> of two characters, the CR LF having become LF.
\<close>

theorem text_mode_changes_output:
  "gcc env_raw_byte ''int main(){putchar(255);return 0;}'' = Inr (0, [])
   \<and> run_program env_raw_byte ''int main(){putchar(255);return 0;}'' [] = Exited [0xFF] [] 0
   \<and> status_code (snd (fst (execute_c_code env_raw_byte executor_ok
         ''int main(){putchar(255);return 0;}'' [] None True))) = 1
   \<and> output_text (snd (fst (execute_c_code env_raw_byte executor_ok
         ''int main(){putchar(255);return 0;}'' [] None True))) = []
   \<and> run_program env_crlf ''int main(){putchar(97);putchar(13);putchar(10);return 0;}'' []
       = Exited [0x61, 0x0D, 0x0A] [] 0
   \<and> decode env_crlf [0x61, 0x0D, 0x0A] = Inr [CHR ''a'', carriage_return, newline]
   \<and> output_text (snd (fst (execute_c_code env_crlf executor_ok
         ''int main(){putchar(97);putchar(13);putchar(10);return 0;}'' [] None True)))
       = [CHR ''a'', newline]"
  by code_simp

text \<open>
  Claim C3, amended. When the toolchain is available, the source is written and
  compiles with exit code 0, the input file (if there is input) is written and the run
  ends within its cap: if what the program wrote to standard output and standard error
  decodes, the record holds as \<open>output\<close> the decoded standard output with every CR LF
  and every CR turned into LF, which is the decoded standard output itself when it has
  no CR, as \<open>status_code\<close> the exit code, 0 for a program that exits 0, and as
  \<open>error\<close> the decoded standard error treated likewise, empty when that is empty; if
  either does not decode, the record has \<open>status_code\<close> 1, no output and the text of
  the decoding error after \<open>Execution error: \<close>. The record has no other field that
  tells success from failure.
\<close>

theorem completed_run_record:
  assumes "gcc_available self"
    and "write_file env ''program.c'' code = None"
    and "gcc env code = Inr (0, compiler_stderr)"
    and "input_data \<noteq> [] \<longrightarrow> write_file env ''input.txt'' input_data = None"
    and "run_program env code input_data = Exited out_bytes err_bytes rc"
    and "execute_c_code env self code input_data eid ws = ((i, r), self', effs)"
  shows "(decode env out_bytes = Inr out \<and> decode env err_bytes = Inr err \<longrightarrow>
            output_text r = translate_newlines out \<and> status_code r = rc
            \<and> error r = translate_newlines err
            \<and> (carriage_return \<notin> set out \<longrightarrow> output_text r = out)
            \<and> (err = [] \<longrightarrow> error r = [])
            \<and> (rc = 0 \<longrightarrow> status_code r = 0))
       \<and> (decode env out_bytes = Inl e
            \<or> (decode env out_bytes = Inr out \<and> decode env err_bytes = Inl e) \<longrightarrow>
            output_text r = [] \<and> status_code r = 1 \<and> error r = ''Execution error: '' @ e)"
proof -
  let ?res = "\<lparr>output_text = [], error = [], status_code = 0, execution_time = 0\<rparr>"
  from assms(1,6) assms(2,3)
  have r: "r = (fst (run_step env code input_data ?res))
             \<lparr>execution_time := time_final env - time_entry env\<rparr>"
    by (simp add: execute_available compile_and_run_compiled Let_def)
  have good: "output_text r = translate_newlines out \<and> status_code r = rc
              \<and> error r = translate_newlines err"
    if "decode env out_bytes = Inr out" "decode env err_bytes = Inr err"
  proof -
    from that have "captured_text env out_bytes err_bytes
                      = Inr (translate_newlines out, translate_newlines err)"
      by (simp add: captured_text_def)
    from run_step_exited [OF assms(4,5) this] r show ?thesis by simp
  qed
  have bad: "output_text r = [] \<and> status_code r = 1 \<and> error r = ''Execution error: '' @ e"
    if "decode env out_bytes = Inl e
        \<or> (decode env out_bytes = Inr out \<and> decode env err_bytes = Inl e)"
  proof -
    from that have "captured_text env out_bytes err_bytes = Inl e"
      by (auto simp add: captured_text_def)
    from run_step_undecodable [OF assms(4,5) this] r show ?thesis by simp
  qed
  from good bad show ?thesis
    by (auto simp add: translate_newlines_without_cr translate_newlines_empty)
qed

theorem completed_run_record_witness:
  "gcc_available executor_ok
   \<and> write_file env_ok ''program.c'' hi_program = None
   \<and> gcc env_ok hi_program = Inr (0, [])
   \<and> run_program env_ok hi_program [] = Exited [0x68, 0x69] [] 0
   \<and> decode env_ok [0x68, 0x69] = Inr ''hi''
   \<and> decode env_ok [] = Inr []
   \<and> output_text (snd (fst (execute_c_code env_ok executor_ok hi_program [] None True))) = ''hi''
   \<and> status_code (snd (fst (execute_c_code env_ok executor_ok hi_program [] None True))) = 0
   \<and> error (snd (fst (execute_c_code env_ok executor_ok hi_program [] None True))) = []"
proof -
  let ?X = "execute_c_code env_ok executor_ok hi_program [] None True"
  have a: "gcc_available executor_ok" by (simp add: executor_ok_def)
  have b: "write_file env_ok ''program.c'' hi_program = None"
    by (simp add: env_ok_def)
  have c: "gcc env_ok hi_program = Inr (0, [])" by (simp add: env_ok_def)
  have d: "([]::string) \<noteq> [] \<longrightarrow> write_file env_ok ''input.txt'' [] = None" by simp
  have e: "run_program env_ok hi_program [] = Exited [0x68, 0x69] [] 0"
    by (simp add: env_ok_def)
  have f: "?X = ((fst (fst ?X), snd (fst ?X)), fst (snd ?X), snd (snd ?X))" by simp
  have g: "decode env_ok [0x68, 0x69] = Inr ''hi''" by code_simp
  have h: "decode env_ok [] = Inr []" by code_simp
  have n: "carriage_return \<notin> set ''hi''" by code_simp
  from completed_run_record [OF a b c d e f, of "''hi''" "[]"] g h n
  have "output_text (snd (fst ?X)) = ''hi'' \<and> status_code (snd (fst ?X)) = 0
        \<and> error (snd (fst ?X)) = []"
    by blast
  with a b c e g h show ?thesis by (intro conjI) simp_all
qed

text \<open>
  Claim C4. When the run raises \<^verbatim>\<open>TimeoutExpired\<close>, which \<^verbatim>\<open>subprocess.run\<close> does
  after ending the program once its 10 seconds are over, the record has \<open>status_code\<close> 1
  and the fixed timeout message as \<open>error\<close>, and no output. Of the two processes of the
  call only the run carries the timeout of 10 seconds; the compiler is started without
  one.
\<close>

theorem timeout_record:
  assumes "gcc_available self"
    and "write_file env ''program.c'' code = None"
    and "gcc env code = Inr (0, compiler_stderr)"
    and "input_data \<noteq> [] \<longrightarrow> write_file env ''input.txt'' input_data = None"
    and "run_program env code input_data = TimeoutExpired"
    and "execute_c_code env self code input_data eid ws = ((i, r), self', effs)"
  shows "status_code r = 1 \<and> error r = ''Execution timed out after 10 seconds''
       \<and> output_text r = []
       \<and> subprocesses effs =
           [([''gcc'', ''-o'', ''program'', ''program.c''], None), ([''program''], Some 10)]"
proof -
  let ?res = "\<lparr>output_text = [], error = [], status_code = 0, execution_time = 0\<rparr>"
  from assms(1,6) assms(2,3)
  have r: "r = (fst (run_step env code input_data ?res))
             \<lparr>execution_time := time_final env - time_entry env\<rparr>"
    and e: "subprocesses effs = subprocesses (snd (compile_and_run env ws i code input_data ?res))"
    by (auto simp add: execute_available Let_def subprocesses_simps compile_and_run_compiled)
  show ?thesis
    using r e
    by (simp add: run_step_timeout [OF assms(4,5)] compile_and_run_compiled [OF assms(2,3)]
        subprocesses_simps timeout_message_def)
qed

theorem timeout_record_witness:
  "gcc_available executor_ok
   \<and> write_file env_loop ''program.c'' ''int main(){for(;;);}'' = None
   \<and> gcc env_loop ''int main(){for(;;);}'' = Inr (0, [])
   \<and> run_program env_loop ''int main(){for(;;);}'' [] = TimeoutExpired
   \<and> status_code (snd (fst (execute_c_code env_loop executor_ok ''int main(){for(;;);}'' [] None True)))
       = 1
   \<and> error (snd (fst (execute_c_code env_loop executor_ok ''int main(){for(;;);}'' [] None True)))
       = ''Execution timed out after 10 seconds''"
proof -
  let ?X = "execute_c_code env_loop executor_ok ''int main(){for(;;);}'' [] None True"
  have a: "gcc_available executor_ok" by (simp add: executor_ok_def)
  have b: "write_file env_loop ''program.c'' ''int main(){for(;;);}'' = None"
    by (simp add: env_loop_def env_ok_def)
  have c: "gcc env_loop ''int main(){for(;;);}'' = Inr (0, [])"
    by (simp add: env_loop_def env_ok_def)
  have d: "([]::string) \<noteq> [] \<longrightarrow> write_file env_loop ''input.txt'' [] = None" by simp
  have e: "run_program env_loop ''int main(){for(;;);}'' [] = TimeoutExpired"
    by (simp add: env_loop_def env_ok_def)
  have f: "?X = ((fst (fst ?X), snd (fst ?X)), fst (snd ?X), snd (snd ?X))" by simp
  from timeout_record [OF a b c d e f] a b c e show ?thesis by simp
qed

text \<open>
  Claim C8. An executor whose startup probe failed answers every later call of
  \<^verbatim>\<open>execute_c_code\<close>, whatever calls came before, with the fixed message that the
  compiler is not available and \<open>status_code\<close> 1; the call makes no workspace directory,
  its only effect outside the executor being the broadcast of that error when a
  broadcaster was given.
\<close>

theorem toolchain_unavailable_record:
  assumes "CodeExecutor_init GccFailed = Some self0"
    and "self = execute_calls calls self0"
    and "execute_c_code env self code input_data eid ws = ((i, r), self', effs)"
  shows "error r = ''GCC compiler is not available. Please install GCC.''
       \<and> status_code r = 1 \<and> status_code r \<noteq> 0 \<and> output_text r = []
       \<and> effs = send_status ws (StatusError ''error'' (error r)) i
       \<and> Mkdtemp \<notin> set effs"
proof -
  from assms(1) have "\<not> gcc_available self0" by auto
  with assms(2) have "\<not> gcc_available self"
    by (simp add: execute_calls_keep_gcc_available)
  with assms(3) show ?thesis
    by (auto simp add: execute_unavailable send_status_def unavailable_message_def)
qed

theorem toolchain_unavailable_record_witness:
  "CodeExecutor_init GccFailed = Some executor_no_gcc
   \<and> error (snd (fst (execute_c_code env_ok
        (execute_calls [(env_ok, ''int x;'', [], None, False)] executor_no_gcc)
        ''int main(){return 0;}'' [] None True)))
       = ''GCC compiler is not available. Please install GCC.''
   \<and> status_code (snd (fst (execute_c_code env_ok
        (execute_calls [(env_ok, ''int x;'', [], None, False)] executor_no_gcc)
        ''int main(){return 0;}'' [] None True))) = 1
   \<and> Mkdtemp \<notin> set (snd (snd (execute_c_code env_ok
        (execute_calls [(env_ok, ''int x;'', [], None, False)] executor_no_gcc)
        ''int main(){return 0;}'' [] None True)))"
proof -
  let ?self = "execute_calls [(env_ok, ''int x;'', [], None, False)] executor_no_gcc"
  let ?X = "execute_c_code env_ok ?self ''int main(){return 0;}'' [] None True"
  have a: "CodeExecutor_init GccFailed = Some executor_no_gcc"
    by (simp add: executor_no_gcc_def)
  have f: "?X = ((fst (fst ?X), snd (fst ?X)), fst (snd ?X), snd (snd ?X))" by simp
  from toolchain_unavailable_record [OF a refl f] a show ?thesis
    by (simp add: send_status_def)
qed

text \<open>
  Claim C9, where the code departs from it. With the toolchain unavailable the call
  returns before the place where the elapsed time is computed, and the record keeps the
  0 it was created with: here the clock moved by half a second between entry and
  return, and \<open>execution_time\<close> is 0.
\<close>

theorem execution_time_unavailable_zero:
  "execution_time (snd (fst
      (execute_c_code env_ok executor_no_gcc ''int main(){return 0;}'' [] None True))) = 0
   \<and> time_final env_ok - time_entry env_ok = 1 / 2"
  by (simp add: execute_unavailable executor_no_gcc_def env_ok_def)

text \<open>
  Claim C10. A call returns the id it was given, or the one \<^verbatim>\<open>uuid4\<close> produced when
  it was given none, together with a record; afterwards the executor's map of results
  is the former one with that id bound to that record, so a lookup by the returned
  id yields the record.
\<close>

theorem result_stored_under_returned_id:
  assumes "execute_c_code env self code input_data eid ws = ((i, r), self', effs)"
  shows "i = (case eid of None \<Rightarrow> uuid4 env | Some j \<Rightarrow> j)
       \<and> execution_results self' = (execution_results self)(i \<mapsto> r)
       \<and> execution_results self' i = Some r
       \<and> get_execution_results self' i = Inr r"
  using assms
  by (cases "gcc_available self")
     (auto simp add: execute_unavailable execute_available Let_def get_execution_results_def)

theorem result_stored_under_returned_id_witness:
  "fst (fst (execute_c_code env_ok executor_ok ''int main(){return 0;}'' [] (Some ''abc'') True))
     = ''abc''
   \<and> fst (fst (execute_c_code env_ok executor_ok ''int main(){return 0;}'' [] None True))
     = ''6f1c''
   \<and> get_execution_results
        (fst (snd (execute_c_code env_ok executor_ok ''int main(){return 0;}'' [] None True)))
        ''6f1c''
     = Inr (snd (fst (execute_c_code env_ok executor_ok ''int main(){return 0;}'' [] None True)))"
proof -
  let ?X = "execute_c_code env_ok executor_ok ''int main(){return 0;}'' [] (Some ''abc'') True"
  let ?Y = "execute_c_code env_ok executor_ok ''int main(){return 0;}'' [] None True"
  have f: "?X = ((fst (fst ?X), snd (fst ?X)), fst (snd ?X), snd (snd ?X))" by simp
  have g: "?Y = ((fst (fst ?Y), snd (fst ?Y)), fst (snd ?Y), snd (snd ?Y))" by simp
  have u: "uuid4 env_ok = ''6f1c''" by (simp add: env_ok_def)
  note X = result_stored_under_returned_id [OF f]
  note Y = result_stored_under_returned_id [OF g]
  from X have j: "fst (fst ?X) = ''abc''" by simp
  from Y u have i: "fst (fst ?Y) = ''6f1c''" by simp
  from Y have "get_execution_results (fst (snd ?Y)) (fst (fst ?Y)) = Inr (snd (fst ?Y))"
    by blast
  then have l: "get_execution_results (fst (snd ?Y)) ''6f1c'' = Inr (snd (fst ?Y))"
    unfolding i .
  from j i l show ?thesis by (intro conjI)
qed

text \<open>
  Claim C2, as stated, fails: the chat handler calls \<^verbatim>\<open>execute_c_code\<close> without a
  broadcaster. Here a message with a code block makes it compile and run the block,
  and nothing is broadcast.
\<close>

theorem chat_run_emits_no_event:
  "subprocesses (snd (snd (process_message env_ok (ChatHandler_init, executor_ok)
                              code_block_message [] ''default'')))
     = [([''gcc'', ''-o'', ''program'', ''program.c''], None), ([''program''], Some 10)]
   \<and> broadcasts (snd (snd (process_message env_ok (ChatHandler_init, executor_ok)
                              code_block_message [] ''default'')))
     = []"
  by code_simp

text \<open>
  Claim C2, amended. A call of \<^verbatim>\<open>execute_c_code\<close> that is given a broadcaster hands
  it these events for the call's execution id, whether or not anyone is subscribed:
  \<open>error\<close> alone when the toolchain is unavailable; otherwise \<open>starting\<close>, then
  \<open>compiling\<close> once the source is written, then \<open>compile_error\<close> when the compiler
  exits with a nonzero code or \<open>running\<close> when it exits with 0, or \<open>error\<close> as soon
  as writing the source or starting the compiler raises, and \<open>completed\<close> with the
  record last. A call that is given no broadcaster, which is how the chat handler calls,
  broadcasts nothing.
\<close>

theorem execute_broadcast_events:
  assumes "execute_c_code env self code input_data eid ws = ((i, r), self', effs)"
  shows "(\<not> ws \<longrightarrow> broadcasts effs = [])
       \<and> (ws \<and> \<not> gcc_available self \<longrightarrow>
            broadcasts effs = [(StatusError ''error'' unavailable_message, i)])
       \<and> (ws \<and> gcc_available self \<and> write_file env ''program.c'' code = Some e \<longrightarrow>
            broadcasts effs =
              [(Status ''starting'', i), (StatusError ''error'' e, i),
               (StatusResult ''completed'' r, i)])
       \<and> (ws \<and> gcc_available self \<and> write_file env ''program.c'' code = None
            \<and> gcc env code = Inl e \<longrightarrow>
            broadcasts effs =
              [(Status ''starting'', i), (Status ''compiling'', i), (StatusError ''error'' e, i),
               (StatusResult ''completed'' r, i)])
       \<and> (ws \<and> gcc_available self \<and> write_file env ''program.c'' code = None
            \<and> gcc env code = Inr (rc, err) \<and> rc \<noteq> 0 \<longrightarrow>
            broadcasts effs =
              [(Status ''starting'', i), (Status ''compiling'', i),
               (StatusError ''compile_error'' err, i), (StatusResult ''completed'' r, i)])
       \<and> (ws \<and> gcc_available self \<and> write_file env ''program.c'' code = None
            \<and> gcc env code = Inr (0, err) \<longrightarrow>
            broadcasts effs =
              [(Status ''starting'', i), (Status ''compiling'', i), (Status ''running'', i),
               (StatusResult ''completed'' r, i)])"
proof (cases "gcc_available self")
  case False
  with assms show ?thesis
    by (auto simp add: execute_unavailable broadcasts_simps)
next
  case True
  let ?res = "\<lparr>output_text = [], error = [], status_code = 0, execution_time = 0\<rparr>"
  from True assms
  have "broadcasts effs =
          broadcasts (snd (compile_and_run env ws i code input_data ?res))
          @ (if ws then [(StatusResult ''completed'' r, i)] else [])"
    by (auto simp add: execute_available Let_def broadcasts_simps)
  with True show ?thesis
    by (simp add: broadcasts_compile_and_run)
qed

theorem execute_broadcast_events_witness:
  "gcc_available executor_ok
   \<and> write_file env_ok ''program.c'' hi_program = None
   \<and> gcc env_ok hi_program = Inr (0, [])
   \<and> broadcasts (snd (snd (execute_c_code env_ok executor_ok hi_program [] (Some ''abc'') True)))
       = [(Status ''starting'', ''abc''), (Status ''compiling'', ''abc''),
          (Status ''running'', ''abc''),
          (StatusResult ''completed''
             (snd (fst (execute_c_code env_ok executor_ok hi_program [] (Some ''abc'') True))),
           ''abc'')]
   \<and> broadcasts (snd (snd (execute_c_code env_ok executor_ok hi_program [] (Some ''abc'') False)))
       = []
   \<and> \<not> gcc_available executor_no_gcc
   \<and> broadcasts (snd (snd (execute_c_code env_ok executor_no_gcc hi_program [] (Some ''abc'') True)))
       = [(StatusError ''error'' unavailable_message, ''abc'')]"
proof -
  let ?X = "execute_c_code env_ok executor_ok hi_program [] (Some ''abc'') True"
  let ?Y = "execute_c_code env_ok executor_ok hi_program [] (Some ''abc'') False"
  let ?Z = "execute_c_code env_ok executor_no_gcc hi_program [] (Some ''abc'') True"
  have a: "gcc_available executor_ok" by (simp add: executor_ok_def)
  have b: "write_file env_ok ''program.c'' hi_program = None" by (simp add: env_ok_def)
  have c: "gcc env_ok hi_program = Inr (0, [])" by (simp add: env_ok_def)
  have n: "\<not> gcc_available executor_no_gcc" by (simp add: executor_no_gcc_def)
  have ix: "fst (fst ?X) = ''abc''"
    by (simp add: execute_available a Let_def)
  have iz: "fst (fst ?Z) = ''abc''"
    by (simp add: execute_unavailable n)
  have x: "?X = ((fst (fst ?X), snd (fst ?X)), fst (snd ?X), snd (snd ?X))" by simp
  have y: "?Y = ((fst (fst ?Y), snd (fst ?Y)), fst (snd ?Y), snd (snd ?Y))" by simp
  have z: "?Z = ((fst (fst ?Z), snd (fst ?Z)), fst (snd ?Z), snd (snd ?Z))" by simp
  from execute_broadcast_events [OF x, where err = "[]"] a b c
  have 1: "broadcasts (snd (snd ?X))
             = [(Status ''starting'', ''abc''), (Status ''compiling'', ''abc''),
                (Status ''running'', ''abc''),
                (StatusResult ''completed'' (snd (fst ?X)), ''abc'')]"
    unfolding ix by blast
  from execute_broadcast_events [OF y] have 2: "broadcasts (snd (snd ?Y)) = []"
    by blast
  from execute_broadcast_events [OF z] n
  have 3: "broadcasts (snd (snd ?Z)) = [(StatusError ''error'' unavailable_message, ''abc'')]"
    unfolding iz by blast
  from a b c 1 2 n 3 show ?thesis by (intro conjI)
qed

section \<open>Claims on the broadcaster\<close>

text \<open>
  Claim C6. A broadcast to an execution id calls \<^verbatim>\<open>send_text\<close> once for every
  websocket registered for that id, in the order of the list, which is the order of
  registration since registering appends; the message reaches all those whose send does
  not raise, whatever happens to the others; afterwards exactly the websockets whose
  send raised are gone from the list, the others keep their order, and the lists of
  other ids are untouched.
\<close>

theorem broadcast_delivery:
  assumes "broadcast send_ok self message execution_id = (self', sends)"
  shows "map fst sends = registered self execution_id
       \<and> delivered sends =
           map (\<lambda>ws. (ws, message))
             (filter (\<lambda>ws. send_ok ws message) (registered self execution_id))
       \<and> registered self' execution_id =
           filter (\<lambda>ws. send_ok ws message) (registered self execution_id)
       \<and> (\<forall>other. other \<noteq> execution_id \<longrightarrow>
             active_connections self' other = active_connections self other)
       \<and> registered (connect self ws execution_id) execution_id =
           registered self execution_id @ [ws]"
proof (cases "active_connections self execution_id")
  case None
  with assms show ?thesis
    by (auto simp add: broadcast_def registered_def delivered_def connect_def)
next
  case (Some cs)
  let ?ok = "\<lambda>ws. send_ok ws message"
  have reg: "registered self execution_id = cs"
    using Some by (simp add: registered_def)
  from assms Some
  have s: "sends = map (\<lambda>ws. (ws, message, ?ok ws)) cs"
    and m: "self' = disconnect_all self (filter (\<lambda>ws. \<not> ?ok ws) cs) execution_id"
    using send_to_all_failed [of send_ok message cs] send_to_all_sends [of send_ok message cs]
    by (auto simp add: broadcast_def split: prod.splits)
  have "fold remove1 (filter (\<lambda>ws. \<not> ?ok ws) cs) ([] @ cs) = [] @ filter ?ok cs"
    by (rule fold_remove1_failed) simp
  then have r: "registered self' execution_id = filter ?ok cs"
    by (simp add: m registered_disconnect_all reg)
  have o: "\<forall>other. other \<noteq> execution_id \<longrightarrow>
             active_connections self' other = active_connections self other"
    by (simp add: m disconnect_all_other)
  have d: "delivered sends = map (\<lambda>ws. (ws, message)) (filter ?ok cs)"
    unfolding s by (rule delivered_map)
  have f: "map fst sends = cs"
    by (simp add: s comp_def)
  from f d r o show ?thesis
    by (simp add: reg registered_connect)
qed

theorem broadcast_delivery_witness:
  "registered three_sockets ''abc'' = [1, 2, 3]
   \<and> delivered (snd (broadcast (\<lambda>ws message. ws \<noteq> 2) three_sockets (Status ''running'') ''abc''))
       = [(1, Status ''running''), (3, Status ''running'')]
   \<and> registered (fst (broadcast (\<lambda>ws message. ws \<noteq> 2) three_sockets (Status ''running'') ''abc''))
        ''abc'' = [1, 3]"
proof -
  let ?X = "broadcast (\<lambda>ws message. ws \<noteq> 2) three_sockets (Status ''running'') ''abc''"
  have a: "registered three_sockets ''abc'' = [1, 2, 3]"
    by (simp add: three_sockets_def registered_connect)
       (simp add: registered_def ConnectionManager_init_def)
  have f: "?X = (fst ?X, snd ?X)" by simp
  from broadcast_delivery [OF f, of 4] a show ?thesis by simp
qed

text \<open>
  Claim C5. When the execution id already has a stored record, which the executor
  stores only on reaching its final state, the endpoint registers the new websocket and
  calls \<^verbatim>\<open>send_text\<close> on it exactly once, with the \<open>completed\<close> event holding that
  record, whatever was registered before; if that send goes through, the event is
  delivered and the websocket stays registered behind the earlier ones.
\<close>

theorem subscribe_replays_completed:
  assumes "execution_results code_executor execution_id = Some r"
    and "websocket_endpoint send_ok manager code_executor ws execution_id = (manager', sends)"
  shows "map (\<lambda>(w, message, ok). (w, message)) sends = [(ws, StatusResult ''completed'' r)]
       \<and> (send_ok ws (StatusResult ''completed'' r) \<longrightarrow>
             delivered sends = [(ws, StatusResult ''completed'' r)]
             \<and> registered manager' execution_id = registered manager execution_id @ [ws])"
  using assms
  by (auto simp add: websocket_endpoint_def Let_def delivered_def registered_connect
      split: if_splits)

theorem subscribe_replays_completed_witness:
  "execution_results
     (fst (snd (execute_c_code env_ok executor_ok ''int main(){return 0;}'' [] (Some ''abc'') False)))
     ''abc''
     = Some (snd (fst (execute_c_code env_ok executor_ok ''int main(){return 0;}'' [] (Some ''abc'') False)))
   \<and> registered ConnectionManager_init ''abc'' = []
   \<and> delivered (snd (websocket_endpoint (\<lambda>ws message. True) ConnectionManager_init
        (fst (snd (execute_c_code env_ok executor_ok ''int main(){return 0;}'' [] (Some ''abc'') False)))
        7 ''abc''))
     = [(7, StatusResult ''completed''
           (snd (fst (execute_c_code env_ok executor_ok ''int main(){return 0;}'' [] (Some ''abc'') False))))]"
proof -
  let ?E = "execute_c_code env_ok executor_ok ''int main(){return 0;}'' [] (Some ''abc'') False"
  let ?X = "websocket_endpoint (\<lambda>ws message. True) ConnectionManager_init (fst (snd ?E)) 7 ''abc''"
  have a: "execution_results (fst (snd ?E)) ''abc'' = Some (snd (fst ?E))"
    by (simp add: execute_available executor_ok_def Let_def)
  have b: "registered ConnectionManager_init ''abc'' = []"
    by (simp add: registered_def ConnectionManager_init_def)
  have f: "?X = (fst ?X, snd ?X)" by simp
  from subscribe_replays_completed [OF a f] have "delivered (snd ?X) = [(7, StatusResult ''completed'' (snd (fst ?E)))]"
    by simp
  with a b show ?thesis by (intro conjI)
qed

section \<open>Claims on the chat handler\<close>

text \<open>
  Claim C1, as stated, fails: the test for a run request comes first. Here the session
  holds code, the message holds both a run phrase and a code block, and the handler
  runs the stored code; the block is not extracted, and the stored code stays.
\<close>

theorem run_previous_precedes_provide_and_run:
  "extract_code run_and_block_message = Some (''c'', hi_program)
   \<and> is_run_previous_code_request run_and_block_message
   \<and> fst (process_message env_ok (session_with_code, executor_ok) run_and_block_message []
            ''default'')
       = CodeExecution [] ''int main(){return 0;}'' ''success'' (1 / 2) ''6f1c''
   \<and> last_generated_code (get_session
         (fst (fst (snd (process_message env_ok (session_with_code, executor_ok)
                           run_and_block_message [] ''default''))))
         ''default'')
       = Some ''int main(){return 0;}''
   \<and> Some ''int main(){return 0;}'' \<noteq> Some hi_program"
  by code_simp

text \<open>
  Claim C1, amended. When the first fence of the message opens a block tagged \<open>c\<close> or
  \<open>C\<close>, with whitespace and a newline after the tag and a body that is not blank,
  closed by the first newline followed by a fence, and it is not the case that the
  message holds a run phrase while the session holds non-empty stored code,
  \<^verbatim>\<open>process_message\<close> takes the second branch: it extracts that first block,
  whatever follows it, overwrites the session's last code with the body of the block,
  stripped, and its language with \<open>c\<close>, adds the user turn and the acknowledgment to
  the history, and executes the extracted code, answering with the result of that
  execution.
\<close>

theorem provide_and_run_unless_run_previous:
  assumes "message = pre @ fence @ t # ws @ newline # body @ newline # fence @ post"
    and "\<not> contains fence pre"
    and "lower_char t = CHR ''c''"
    and "list_all is_space ws"
    and "\<not> list_all is_space body"
    and "\<not> contains (newline # fence) body"
    and "\<not> (is_run_previous_code_request message
            \<and> truthy (last_generated_code (get_session (fst st) session_id)))"
    and "process_message env st message input_data session_id = (resp, st', effs)"
    and "execute_c_code env (snd st) (strip body) input_data (Some (uuid4 env)) False
           = ((i, r), code_executor', effs')"
  shows "extract_code message = Some (''c'', strip body)
       \<and> last_generated_code (get_session (fst st') session_id) = Some (strip body)
       \<and> language (get_session (fst st') session_id) = ''c''
       \<and> history (get_session (fst st') session_id)
           = history (get_session (fst st) session_id)
             @ [(''user'', message), (''assistant'', ''Received code to execute.'')]
       \<and> snd st' = code_executor' \<and> effs = effs' \<and> i = uuid4 env
       \<and> resp = CodeExecution (if status_code r = 0 then output_text r else error r)
                   (strip body)
                   (if status_code r = 0 then ''success'' else ''error'') (execution_time r) i"
proof -
  have x: "extract_code message = Some (''c'', strip body)"
    unfolding assms(1) by (rule extract_code_first_block [OF assms(2-6)])
  have e: "execute_and_respond env (snd st) (strip body) input_data =
             (CodeExecution (if status_code r = 0 then output_text r else error r) (strip body)
                (if status_code r = 0 then ''success'' else ''error'') (execution_time r) i,
              code_executor', effs')"
    using assms(9) by (simp add: execute_and_respond_def)
  have i: "i = uuid4 env"
    using assms(9)
    by (cases "gcc_available (snd st)")
       (auto simp add: execute_unavailable execute_available Let_def)
  from assms(8) x show ?thesis
    unfolding process_message_provide_and_run [OF x assms(7)] e
    using i by (auto simp add: get_session_store)
qed

theorem provide_and_run_unless_run_previous_witness:
  "\<not> contains fence ''Try: ''
   \<and> lower_char (CHR ''C'') = CHR ''c''
   \<and> \<not> is_run_previous_code_request two_block_message
   \<and> truthy (last_generated_code (get_session session_with_code ''default''))
   \<and> strip (''  '' @ hi_program @ '' '') = hi_program
   \<and> extract_code two_block_message = Some (''c'', hi_program)
   \<and> last_generated_code (get_session
         (fst (fst (snd (process_message env_ok (session_with_code, executor_ok)
                           two_block_message [] ''default''))))
         ''default'')
       = Some hi_program
   \<and> fst (process_message env_ok (session_with_code, executor_ok) two_block_message []
            ''default'')
       = CodeExecution ''hi'' hi_program ''success'' (1 / 2) ''6f1c''"
proof -
  let ?st = "(session_with_code, executor_ok)"
  let ?body = "''  '' @ hi_program @ '' ''"
  let ?post = "newline # ''```c'' @ [newline] @ ''int main(){return 1;}'' @ [newline] @ ''```''"
  let ?P = "process_message env_ok ?st two_block_message [] ''default''"
  let ?E = "execute_c_code env_ok (snd ?st) (strip ?body) [] (Some (uuid4 env_ok)) False"
  have m: "two_block_message
             = ''Try: '' @ fence @ CHR ''C'' # '' '' @ newline # ?body @ newline # fence @ ?post"
    by (simp add: two_block_message_def)
  have a1: "\<not> contains fence ''Try: ''" by code_simp
  have a2: "lower_char (CHR ''C'') = CHR ''c''" by code_simp
  have a3: "list_all is_space '' ''" by code_simp
  have a4: "\<not> list_all is_space ?body" by code_simp
  have a5: "\<not> contains (newline # fence) ?body" by code_simp
  have n: "\<not> is_run_previous_code_request two_block_message" by code_simp
  have t: "truthy (last_generated_code (get_session session_with_code ''default''))"
    by code_simp
  have sb: "strip ?body = hi_program" by code_simp
  from n have b: "\<not> (is_run_previous_code_request two_block_message
            \<and> truthy (last_generated_code (get_session (fst ?st) ''default'')))" by simp
  have c: "?P = (fst ?P, (fst (snd ?P)), snd (snd ?P))" by simp
  have d: "?E = ((fst (fst ?E), snd (fst ?E)), fst (snd ?E), snd (snd ?E))" by simp
  have r: "snd (fst (execute_c_code env_ok executor_ok hi_program [] (Some ''6f1c'') False))
             = \<lparr>output_text = ''hi'', error = [], status_code = 0, execution_time = 1 / 2\<rparr>"
    by code_simp
  have u: "uuid4 env_ok = ''6f1c''" by (simp add: env_ok_def)
  have ie: "fst (fst (execute_c_code env_ok executor_ok hi_program [] (Some ''6f1c'') False))
              = ''6f1c''"
    by code_simp
  note T = provide_and_run_unless_run_previous [OF m a1 a2 a3 a4 a5 b c d]
  have x: "extract_code two_block_message = Some (''c'', hi_program)"
    using T [THEN conjunct1] unfolding sb .
  have l: "last_generated_code (get_session (fst (fst (snd ?P))) ''default'')
             = Some hi_program"
    using T [THEN conjunct2, THEN conjunct1] unfolding sb .
  note R = T [THEN conjunct2, THEN conjunct2, THEN conjunct2, THEN conjunct2,
              THEN conjunct2, THEN conjunct2, THEN conjunct2]
  have p: "fst ?P = CodeExecution ''hi'' hi_program ''success'' (1 / 2) ''6f1c''"
    using R unfolding sb by (simp add: r u ie)
  from a1 a2 n t sb x l p show ?thesis by (intro conjI)
qed

text \<open>
  Claim C7, as stated, fails: when the chat call of the generation service raises, the
  handler answers with the error text and adds no assistant turn. After this one
  message the history of the session has one entry, not two.
\<close>

theorem chat_failure_single_turn:
  "history (get_session
      (fst (process_messages [(env_chat_down, ''hello'', [])] ''default''
              (ChatHandler_init, executor_ok)))
      ''default'')
     = [(''user'', ''hello'')]
   \<and> fst (process_message env_chat_down (ChatHandler_init, executor_ok) ''hello'' [] ''default'')
     = TextResponse ''Chat error: Connection error.''"
  by code_simp

text \<open>
  Claim C7, amended. Each message processed for a session adds to the end of its
  history exactly one user turn holding the message, followed by exactly one assistant
  turn, in all four branches, except that a message whose generate or chat call raises
  adds its user turn alone. So after N messages processed one after the other the
  history has grown by 2N entries less one for each message whose call raised; when
  for each of them the generation service answers its generate and chat calls, no call
  raises and the history has grown by exactly 2N, which from a new session is a length
  of 2N.
\<close>

theorem history_two_turns_per_message:
  "(\<exists>tss. history (get_session (fst (process_messages items session_id st)) session_id)
            = history (get_session (fst st) session_id) @ concat tss
          \<and> list_all2 (\<lambda>(failed, item) ts. turn_shape failed (fst (snd item)) ts)
              (zip (generation_failures items session_id st) items) tss)
   \<and> length (history (get_session (fst (process_messages items session_id st)) session_id))
       + length (filter id (generation_failures items session_id st))
     = length (history (get_session (fst st) session_id)) + 2 * length items
   \<and> ((\<forall>item \<in> set items. generation_answers (fst item)) \<longrightarrow>
        filter id (generation_failures items session_id st) = []
        \<and> length (history (get_session (fst (process_messages items session_id st)) session_id))
          = length (history (get_session (fst st) session_id)) + 2 * length items)
   \<and> (sessions (fst st) session_id = None \<longrightarrow>
        history (get_session (fst st) session_id) = [])"
proof -
  have "filter id (generation_failures items session_id st) = []
        \<and> length (history (get_session (fst (process_messages items session_id st)) session_id))
          = length (history (get_session (fst st) session_id)) + 2 * length items"
    if a: "\<forall>item \<in> set items. generation_answers (fst item)"
  proof -
    from generation_answers_no_failures [OF a]
    have f: "filter id (generation_failures items session_id st) = []" .
    with process_messages_length [of items session_id st] show ?thesis by simp
  qed
  moreover have "sessions (fst st) session_id = None \<longrightarrow>
                 history (get_session (fst st) session_id) = []"
    by (simp add: get_session_def)
  ultimately show ?thesis
    using process_messages_turns [of items session_id st]
      process_messages_length [of items session_id st]
    by blast
qed

theorem history_two_turns_per_message_witness:
  "generation_answers env_ok
   \<and> sessions ChatHandler_init ''default'' = None
   \<and> length (history (get_session
        (fst (process_messages
                [(env_ok, ''hello'', []), (env_ok, code_block_message, []),
                 (env_ok, ''run it'', [])]
                ''default'' (ChatHandler_init, executor_ok)))
        ''default''))
     = 6
   \<and> generation_failures
        [(env_chat_down, ''hello'', []), (env_ok, code_block_message, []),
         (env_ok, ''run it'', [])]
        ''default'' (ChatHandler_init, executor_ok)
     = [True, False, False]
   \<and> length (history (get_session
        (fst (process_messages
                [(env_chat_down, ''hello'', []), (env_ok, code_block_message, []),
                 (env_ok, ''run it'', [])]
                ''default'' (ChatHandler_init, executor_ok)))
        ''default''))
     = 5"
proof -
  let ?items = "[(env_ok, ''hello'', []::string), (env_ok, code_block_message, []),
                 (env_ok, ''run it'', [])]"
  let ?items2 = "[(env_chat_down, ''hello'', []::string), (env_ok, code_block_message, []),
                  (env_ok, ''run it'', [])]"
  let ?st = "(ChatHandler_init, executor_ok)"
  let ?len = "\<lambda>items. length (history (get_session
                 (fst (process_messages items ''default'' ?st)) ''default''))"
  have g: "generation_answers env_ok"
    by (simp add: generation_answers_def env_ok_def)
  then have a: "\<forall>item \<in> set ?items. generation_answers (fst item)" by simp
  have b: "sessions ChatHandler_init ''default'' = None"
    by (simp add: ChatHandler_init_def)
  note T = history_two_turns_per_message [of ?items "''default''" ?st]
  note U = history_two_turns_per_message [of ?items2 "''default''" ?st]
  from b have b': "sessions (fst ?st) ''default'' = None" by simp
  have h0: "history (get_session (fst ?st) ''default'') = []"
    using T [THEN conjunct2, THEN conjunct2, THEN conjunct2, THEN mp, OF b'] .
  have "?len ?items = length (history (get_session (fst ?st) ''default'')) + 2 * length ?items"
    using T [THEN conjunct2, THEN conjunct2, THEN conjunct1, THEN mp, OF a, THEN conjunct2] .
  then have one: "?len ?items = 6"
    unfolding h0 by simp
  have f: "generation_failures ?items2 ''default'' ?st = [True, False, False]"
    by code_simp
  have "?len ?items2 + length (filter id (generation_failures ?items2 ''default'' ?st))
          = length (history (get_session (fst ?st) ''default'')) + 2 * length ?items2"
    using U [THEN conjunct2, THEN conjunct1] .
  then have two: "?len ?items2 = 5"
    unfolding f h0 by simp
  from g b one f two show ?thesis by (intro conjI)
qed

end
